theory Spec2Isabelle
  imports Main "HOL-Library.AList"
begin

section \<open>Shared data model\<close>

text \<open>
  A relative path is the list of its components (\<open>sub/x.txt\<close> is \<open>[''sub'', ''x.txt'']\<close>).
  Configuration ids are database row ids, time stamps are points of an integer clock,
  sizes and counters are non-negative.
\<close>

type_synonym path = "string list"

text \<open>
  What \<open>os.stat\<close> and \<open>FileUtils.get_file_hash\<close> report for a regular file. The digest is
  the hex string of the MD5 sum; \<open>get_file_hash\<close> returns the empty string when the file
  cannot be read.
\<close>

record file_info =
  st_size :: nat
  st_mtime :: int
  digest :: string

text \<open>Table \<open>file_states\<close>, with \<open>UNIQUE(config_id, file_path)\<close>.\<close>

record fs_row =
  fs_config_id :: int
  file_path :: path
  file_hash :: "string option"
  modified_time :: "int option"
  sync_status :: string

text \<open>
  \<open>DatabaseManager.update_file_state\<close> is \<open>INSERT OR REPLACE\<close>: the row with the same
  unique key is removed and the new row is added.
\<close>

definition update_file_state ::
  "fs_row list \<Rightarrow> int \<Rightarrow> path \<Rightarrow> string option \<Rightarrow> int option \<Rightarrow> string \<Rightarrow> fs_row list" where
  "update_file_state rows cid p h mt st =
     filter (\<lambda>r. \<not> (fs_config_id r = cid \<and> file_path r = p)) rows
       @ [\<lparr>fs_config_id = cid, file_path = p, file_hash = h, modified_time = mt, sync_status = st\<rparr>]"

definition get_file_states :: "fs_row list \<Rightarrow> int \<Rightarrow> fs_row list" where
  "get_file_states rows cid = filter (\<lambda>r. fs_config_id r = cid) rows"

definition delete_file_state :: "fs_row list \<Rightarrow> int \<Rightarrow> path \<Rightarrow> fs_row list" where
  "delete_file_state rows cid p = filter (\<lambda>r. \<not> (fs_config_id r = cid \<and> file_path r = p)) rows"

section \<open>Change monitor: the size-stability check\<close>

text \<open>
  The history markers written by the monitor. The message texts of the source are
  Russian sentences naming the path; the model keeps the kind of event and the path.
\<close>

datatype marker = NewFile path | ChangedFile path | DeletedFile path

record pending_row =
  pr_config_id :: int
  pr_marker :: marker
  pr_start :: int
  pr_end :: int

text \<open>
  The part of \<open>FileMonitor\<close> and of the database that the handlers read and write.
  \<open>file_sizes\<close> is the dictionary keyed by \<open>f"{config_id}:{rel_path}"\<close>; a decimal
  integer contains no colon, so the key determines the pair and the model keys the map
  by the pair. \<open>started\<close> lists the configurations for which a thread running
  \<open>sync_callback\<close> was started, in order. \<open>known_configs\<close> holds the ids for which
  \<open>get_sync_config\<close> returns a row.
\<close>

record monitor =
  sync_callback :: bool
  known_configs :: "int set"
  file_sizes :: "(int \<times> path) \<rightharpoonup> nat"
  mon_file_states :: "fs_row list"
  mon_history :: "pending_row list"
  started :: "int list"

text \<open>
  \<open>_handle_file_created(config_id, rel_path, timestamp)\<close>. The argument \<open>st\<close> is what the
  handler finds at \<open>os.path.join(source_path, rel_path)\<close>: \<open>None\<close> when
  \<open>os.path.exists\<close> is false, the file's \<open>os.stat\<close> otherwise. A missing configuration
  makes \<open>config['source_path']\<close> raise, which the handler's \<open>except\<close> logs.
\<close>

definition ready_created :: "monitor \<Rightarrow> int \<Rightarrow> path \<Rightarrow> int \<Rightarrow> file_info \<Rightarrow> monitor" where
  "ready_created m cid rel ts f =
     (let m1 = m\<lparr>mon_file_states :=
                  update_file_state (mon_file_states m) cid rel None (Some (st_mtime f)) ''pending''\<rparr>;
          m2 = m1\<lparr>mon_history := mon_history m1 @
                  [\<lparr>pr_config_id = cid, pr_marker = NewFile rel, pr_start = ts, pr_end = ts\<rparr>]\<rparr>
      in if sync_callback m2 then m2\<lparr>started := started m2 @ [cid]\<rparr> else m2)"

definition handle_file_created :: "monitor \<Rightarrow> int \<Rightarrow> path \<Rightarrow> int \<Rightarrow> file_info option \<Rightarrow> monitor" where
  "handle_file_created m cid rel ts st =
     (if cid \<notin> known_configs m then m
      else case st of
        None \<Rightarrow> m
      | Some f \<Rightarrow>
          (let current_size = st_size f; file_key = (cid, rel) in
           if current_size = 0 then
             ready_created (m\<lparr>file_sizes := (file_sizes m)(file_key := None)\<rparr>) cid rel ts f
           else case file_sizes m file_key of
             Some last_size \<Rightarrow>
               if last_size \<noteq> current_size
               then m\<lparr>file_sizes := (file_sizes m)(file_key \<mapsto> current_size)\<rparr>
               else ready_created (m\<lparr>file_sizes := (file_sizes m)(file_key := None)\<rparr>) cid rel ts f
           | None \<Rightarrow> m\<lparr>file_sizes := (file_sizes m)(file_key \<mapsto> current_size)\<rparr>))"

text \<open>\<open>_handle_file_modified\<close>: the same check, with its own history marker.\<close>

definition ready_modified :: "monitor \<Rightarrow> int \<Rightarrow> path \<Rightarrow> int \<Rightarrow> file_info \<Rightarrow> monitor" where
  "ready_modified m cid rel ts f =
     (let m1 = m\<lparr>mon_file_states :=
                  update_file_state (mon_file_states m) cid rel None (Some (st_mtime f)) ''pending''\<rparr>;
          m2 = m1\<lparr>mon_history := mon_history m1 @
                  [\<lparr>pr_config_id = cid, pr_marker = ChangedFile rel, pr_start = ts, pr_end = ts\<rparr>]\<rparr>
      in if sync_callback m2 then m2\<lparr>started := started m2 @ [cid]\<rparr> else m2)"

definition handle_file_modified :: "monitor \<Rightarrow> int \<Rightarrow> path \<Rightarrow> int \<Rightarrow> file_info option \<Rightarrow> monitor" where
  "handle_file_modified m cid rel ts st =
     (if cid \<notin> known_configs m then m
      else case st of
        None \<Rightarrow> m
      | Some f \<Rightarrow>
          (let current_size = st_size f; file_key = (cid, rel) in
           if current_size = 0 then
             ready_modified (m\<lparr>file_sizes := (file_sizes m)(file_key := None)\<rparr>) cid rel ts f
           else case file_sizes m file_key of
             Some last_size \<Rightarrow>
               if last_size \<noteq> current_size
               then m\<lparr>file_sizes := (file_sizes m)(file_key \<mapsto> current_size)\<rparr>
               else ready_modified (m\<lparr>file_sizes := (file_sizes m)(file_key := None)\<rparr>) cid rel ts f
           | None \<Rightarrow> m\<lparr>file_sizes := (file_sizes m)(file_key \<mapsto> current_size)\<rparr>))"

text \<open>
  A create or modify event of \<open>_handle_event\<close>, for one configuration and one path,
  together with the stat of the file at that moment.
\<close>

datatype kind = Created | Modified

fun handle :: "int \<Rightarrow> path \<Rightarrow> monitor \<Rightarrow> kind \<times> int \<times> file_info \<Rightarrow> monitor" where
  "handle cid rel m (Created, ts, f) = handle_file_created m cid rel ts (Some f)"
| "handle cid rel m (Modified, ts, f) = handle_file_modified m cid rel ts (Some f)"

text \<open>Running the handlers over a sequence of events, oldest first.\<close>

fun run_events :: "int \<Rightarrow> path \<Rightarrow> monitor \<Rightarrow> (kind \<times> int \<times> file_info) list \<Rightarrow> monitor" where
  "run_events cid rel m [] = m"
| "run_events cid rel m (e # es) = run_events cid rel (handle cid rel m e) es"

text \<open>Whether one event started a synchronisation.\<close>

definition triggers :: "int \<Rightarrow> path \<Rightarrow> monitor \<Rightarrow> kind \<times> int \<times> file_info \<Rightarrow> bool" where
  "triggers cid rel m e = (started (handle cid rel m e) \<noteq> started m)"

text \<open>The size that the handler reads for an event.\<close>

definition observed :: "kind \<times> int \<times> file_info \<Rightarrow> nat" where
  "observed e = st_size (snd (snd e))"

text \<open>A monitor with a callback, one configuration and nothing recorded yet.\<close>

definition fresh_monitor :: monitor where
  "fresh_monitor = \<lparr>sync_callback = True, known_configs = {1}, file_sizes = Map.empty,
     mon_file_states = [], mon_history = [], started = []\<rparr>"

definition sized :: "nat \<Rightarrow> file_info" where
  "sized n = \<lparr>st_size = n, st_mtime = 0, digest = []\<rparr>"


section \<open>Database: configurations and history\<close>

text \<open>
  The columns of \<open>sync_configs\<close> that the modelled code reads. An unset
  \<open>target_path\<close> is the empty string (\<open>_normalise_config\<close>).
\<close>

record sync_config =
  source_path :: string
  target_type :: string
  target_path :: string
  delete_missing :: bool

text \<open>
  The message column of \<open>sync_history\<close>. The source writes Russian sentences; the model
  keeps which sentence it is and the numbers it carries (copied, updated, deleted,
  skipped, errors for the summary).
\<close>

datatype message =
    ScheduledStart
  | ScheduledEnd string
  | TaskTimeout int
  | TaskRaised
  | ServiceStart
  | LocalStart
  | SourceMissing
  | TargetNotCreated
  | Summary nat nat nat nat nat
  | FinishedOk
  | FinishedWithError
  | ServiceRaised

record hist_row =
  h_id :: nat
  h_config_id :: int
  h_status :: string
  h_message :: message
  files_count :: nat
  files_processed :: nat
  files_copied :: nat
  files_updated :: nat
  files_deleted :: nat
  h_errors :: nat
  h_start_time :: int
  h_end_time :: "int option"

text \<open>
  Table \<open>sync_file_operations\<close>: the per-file log keyed by the history id.
\<close>

record op_row =
  op_history_id :: nat
  operation_type :: string
  op_file_path :: path
  op_file_size :: nat
  op_status :: string

text \<open>
  \<open>last_history_id\<close> is the \<open>AUTOINCREMENT\<close> counter of \<open>sync_history\<close>:
  \<open>cursor.lastrowid\<close> of an insert is one more than every id given out before.
\<close>

record database =
  configs :: "int \<rightharpoonup> sync_config"
  file_states :: "fs_row list"
  sync_history :: "hist_row list"
  last_history_id :: nat
  file_operations :: "op_row list"

definition get_sync_config :: "database \<Rightarrow> int \<Rightarrow> sync_config option" where
  "get_sync_config d config_id = configs d config_id"

text \<open>
  \<open>add_sync_history(config_id, status, message, start_time, end_time)\<close>: the counts
  default to 0; \<open>start_time\<close> defaults to the current time \<open>now\<close>.
\<close>

definition add_sync_history ::
  "database \<Rightarrow> int \<Rightarrow> string \<Rightarrow> message \<Rightarrow> int option \<Rightarrow> int option \<Rightarrow> int \<Rightarrow> database \<times> nat" where
  "add_sync_history d config_id status msg start end now =
     (let new_id = Suc (last_history_id d);
          row = \<lparr>h_id = new_id, h_config_id = config_id, h_status = status, h_message = msg,
                 files_count = 0, files_processed = 0, files_copied = 0, files_updated = 0,
                 files_deleted = 0, h_errors = 0,
                 h_start_time = (case start of Some t \<Rightarrow> t | None \<Rightarrow> now),
                 h_end_time = end\<rparr>
      in (d\<lparr>sync_history := sync_history d @ [row], last_history_id := new_id\<rparr>, new_id))"

text \<open>
  \<open>update_sync_history(history_id, **updates)\<close>: \<open>UPDATE ... WHERE id = ?\<close>. The keyword
  arguments of a call are the function \<open>upd\<close> that sets those columns.
\<close>

definition update_sync_history :: "database \<Rightarrow> nat \<Rightarrow> (hist_row \<Rightarrow> hist_row) \<Rightarrow> database" where
  "update_sync_history d history_id upd =
     d\<lparr>sync_history := map (\<lambda>r. if h_id r = history_id then upd r else r) (sync_history d)\<rparr>"

definition get_sync_history_record :: "database \<Rightarrow> nat \<Rightarrow> hist_row option" where
  "get_sync_history_record d history_id = find (\<lambda>r. h_id r = history_id) (sync_history d)"

section \<open>Scheduler\<close>

text \<open>The fields of \<open>datetime.now()\<close> that the scheduler reads, and a linear time stamp.\<close>

record datetime =
  dt_day :: int
  dt_hour :: int
  dt_minute :: int
  dt_stamp :: int

record task =
  task_type :: string
  task_config_id :: int
  task_timestamp :: int

record task_info =
  start_time :: int
  ti_status :: string

text \<open>The warnings, errors and notices that the scheduler writes to its logger.\<close>

datatype log_entry =
    AlreadyRunning int
  | CapacityReached nat
  | Enqueued int
  | EnqueuedNow int
  | NotRunning
  | NoConfig int
  | TimedOut int
  | Finished int string
  | SyncFailed int
  | BadCustomSchedule

text \<open>What a job of the \<open>schedule\<close> library calls when it is due.\<close>

datatype action = EnqueueSync int | CheckMonthly int int | CheckCustom int string

text \<open>
  A job: \<open>schedule.every(n).minutes\<close> is \<open>unit = ''minutes''\<close> with \<open>every = n\<close>;
  \<open>schedule.every().day.at(t)\<close> is \<open>unit = ''day''\<close> with \<open>at_time = Some t\<close>; a weekday
  name stands for \<open>getattr(schedule.every(), day)\<close>.
\<close>

record job =
  every :: int
  unit :: string
  at_time :: "string option"
  job_action :: action

record schedule_entry =
  se_job :: job
  se_type :: string
  se_value :: string

text \<open>
  \<open>SyncScheduler\<close>. \<open>active_tasks\<close> and \<open>schedules\<close> are dictionaries in insertion
  order. \<open>worker\<close> is the position of the single worker thread (\<open>_process_tasks\<close>):
  \<open>None\<close> while it waits on the queue, and the configuration, the task's time stamp and
  the history id while it is inside \<open>sync_manager.sync_config\<close> for a task.
\<close>

record scheduler =
  running :: bool
  task_queue :: "task list"
  active_tasks :: "(int \<times> task_info) list"
  schedules :: "(int \<times> schedule_entry) list"
  max_concurrent_tasks :: nat
  task_timeout :: int
  worker :: "(int \<times> int \<times> nat) option"
  log :: "log_entry list"
  db :: database

definition init_scheduler :: "database \<Rightarrow> scheduler" where
  "init_scheduler d = \<lparr>running = False, task_queue = [], active_tasks = [], schedules = [],
     max_concurrent_tasks = 3, task_timeout = 3600, worker = None, log = [], db = d\<rparr>"

text \<open>\<open>_enqueue_sync_task(config_id)\<close>, called by a due job at time \<open>now\<close>.\<close>

definition enqueue_sync_task :: "scheduler \<Rightarrow> int \<Rightarrow> int \<Rightarrow> scheduler" where
  "enqueue_sync_task s config_id now =
     (if config_id \<in> fst ` set (active_tasks s) then
        s\<lparr>log := log s @ [AlreadyRunning config_id]\<rparr>
      else if length (active_tasks s) \<ge> max_concurrent_tasks s then
        s\<lparr>log := log s @ [CapacityReached (max_concurrent_tasks s)]\<rparr>
      else
        s\<lparr>task_queue := task_queue s @
             [\<lparr>task_type = ''sync'', task_config_id = config_id, task_timestamp = now\<rparr>],
          log := log s @ [Enqueued config_id]\<rparr>)"

text \<open>\<open>run_sync_now(config_id)\<close>: the new state and the returned flag.\<close>

definition run_sync_now :: "scheduler \<Rightarrow> int \<Rightarrow> int \<Rightarrow> scheduler \<times> bool" where
  "run_sync_now s config_id now =
     (if \<not> running s then (s\<lparr>log := log s @ [NotRunning]\<rparr>, False)
      else if get_sync_config (db s) config_id = None then
        (s\<lparr>log := log s @ [NoConfig config_id]\<rparr>, False)
      else if config_id \<in> fst ` set (active_tasks s) then
        (s\<lparr>log := log s @ [AlreadyRunning config_id]\<rparr>, False)
      else if length (active_tasks s) \<ge> max_concurrent_tasks s then
        (s\<lparr>log := log s @ [CapacityReached (max_concurrent_tasks s)]\<rparr>, False)
      else
        (s\<lparr>task_queue := task_queue s @
             [\<lparr>task_type = ''sync'', task_config_id = config_id, task_timestamp = now\<rparr>],
           log := log s @ [EnqueuedNow config_id]\<rparr>, True))"

text \<open>\<open>_check_monthly_sync(config_id, day_of_month)\<close>.\<close>

definition check_monthly_sync :: "scheduler \<Rightarrow> int \<Rightarrow> int \<Rightarrow> datetime \<Rightarrow> scheduler" where
  "check_monthly_sync s config_id day_of_month now =
     (if dt_day now = day_of_month then enqueue_sync_task s config_id (dt_stamp now) else s)"


subsection \<open>Reading a custom schedule value\<close>

text \<open>
  Python's \<open>int(s)\<close> on an ASCII string: white space around the text is dropped, one sign
  may come first, then decimal digits, where single underscores may stand between digits.
  \<open>None\<close> is the \<open>ValueError\<close>.
\<close>

definition is_space :: "char \<Rightarrow> bool" where
  "is_space c = (let n = (of_char c :: nat) in (9 \<le> n \<and> n \<le> 13) \<or> (28 \<le> n \<and> n \<le> 32))"

definition is_digit :: "char \<Rightarrow> bool" where
  "is_digit c = (let n = (of_char c :: nat) in 48 \<le> n \<and> n \<le> 57)"

definition strip :: "string \<Rightarrow> string" where
  "strip s = rev (dropWhile is_space (rev (dropWhile is_space s)))"

fun underscores_ok :: "string \<Rightarrow> bool" where
  "underscores_ok (a # b # cs) =
     ((is_digit a \<or> (a = CHR ''_'' \<and> is_digit b)) \<and> underscores_ok (b # cs))"
| "underscores_ok [a] = is_digit a"
| "underscores_ok [] = False"

definition digits_value :: "string \<Rightarrow> int" where
  "digits_value ds = foldl (\<lambda>a c. 10 * a + (of_char c - 48)) 0 (filter is_digit ds)"

definition py_int :: "string \<Rightarrow> int option" where
  "py_int s =
     (let t = strip s;
          neg = (t \<noteq> [] \<and> hd t = CHR ''-'');
          body = (if t \<noteq> [] \<and> (hd t = CHR ''-'' \<or> hd t = CHR ''+'') then tl t else t)
      in if body \<noteq> [] \<and> is_digit (hd body) \<and> underscores_ok body
         then Some (if neg then - digits_value body else digits_value body)
         else None)"

text \<open>\<open>s.split(sep)\<close> for a separator of one character.\<close>

fun split_on :: "char \<Rightarrow> string \<Rightarrow> string list" where
  "split_on sep [] = [[]]"
| "split_on sep (c # cs) =
     (if c = sep then [] # split_on sep cs
      else case split_on sep cs of w # ws \<Rightarrow> (c # w) # ws | [] \<Rightarrow> [[c]])"

text \<open>
  \<open>hour, minute = map(int, cron_expression.split(':'))\<close>: exactly two fields, both
  integers; anything else raises inside the \<open>try\<close>.
\<close>

definition parse_hour_minute :: "string \<Rightarrow> (int \<times> int) option" where
  "parse_hour_minute cron_expression =
     (case split_on CHR '':'' cron_expression of
        [a, b] \<Rightarrow> (case py_int a of
                     None \<Rightarrow> None
                   | Some hour \<Rightarrow> (case py_int b of None \<Rightarrow> None | Some minute \<Rightarrow> Some (hour, minute)))
      | _ \<Rightarrow> None)"

text \<open>\<open>_check_custom_sync(config_id, cron_expression)\<close>, run at time \<open>now\<close>.\<close>

definition check_custom_sync :: "scheduler \<Rightarrow> int \<Rightarrow> string \<Rightarrow> datetime \<Rightarrow> scheduler" where
  "check_custom_sync s config_id cron_expression now =
     (case parse_hour_minute cron_expression of
        None \<Rightarrow> s\<lparr>log := log s @ [BadCustomSchedule]\<rparr>
      | Some (hour, minute) \<Rightarrow>
          if dt_hour now = hour \<and> dt_minute now = minute
          then enqueue_sync_task s config_id (dt_stamp now)
          else s)"

text \<open>
  The schedule value \<open>HH:MM\<close> as the specification writes it: hour and minute in two
  decimal digits each, with a colon between. This is the form against which the reading
  of the value by \<open>_check_custom_sync\<close> is checked.
\<close>

definition two_digits :: "nat \<Rightarrow> string" where
  "two_digits n = [char_of (48 + n div 10), char_of (48 + n mod 10)]"

definition hh_mm :: "nat \<Rightarrow> nat \<Rightarrow> string" where
  "hh_mm h mi = two_digits h @ '':'' @ two_digits mi"

text \<open>What the scheduler thread does when \<open>schedule.run_pending()\<close> finds a job due.\<close>

fun run_job :: "scheduler \<Rightarrow> action \<Rightarrow> datetime \<Rightarrow> scheduler" where
  "run_job s (EnqueueSync config_id) now = enqueue_sync_task s config_id (dt_stamp now)"
| "run_job s (CheckMonthly config_id day_of_month) now = check_monthly_sync s config_id day_of_month now"
| "run_job s (CheckCustom config_id cron_expression) now = check_custom_sync s config_id cron_expression now"

subsection \<open>Registering a schedule\<close>

definition lower :: "string \<Rightarrow> string" where
  "lower s = map (\<lambda>c. let n = (of_char c :: nat) in
                      if 65 \<le> n \<and> n \<le> 90 then char_of (n + 32) else c) s"

text \<open>
  The job that \<open>add_schedule\<close> builds for a type and a value, \<open>None\<close> when building it
  raises (an interval or day of month that is no integer, a value without exactly one
  comma) or when the type is unknown.
\<close>

definition make_job :: "int \<Rightarrow> string \<Rightarrow> string \<Rightarrow> job option" where
  "make_job config_id schedule_type schedule_value =
     (if schedule_type = ''interval'' then
        (case py_int schedule_value of
           None \<Rightarrow> None
         | Some interval_minutes \<Rightarrow>
             Some \<lparr>every = interval_minutes, unit = ''minutes'', at_time = None,
                   job_action = EnqueueSync config_id\<rparr>)
      else if schedule_type = ''daily'' then
        Some \<lparr>every = 1, unit = ''day'', at_time = Some schedule_value,
              job_action = EnqueueSync config_id\<rparr>
      else if schedule_type = ''weekly'' then
        (case split_on CHR '','' schedule_value of
           [day, time_str] \<Rightarrow>
             Some \<lparr>every = 1, unit = lower day, at_time = Some time_str,
                   job_action = EnqueueSync config_id\<rparr>
         | _ \<Rightarrow> None)
      else if schedule_type = ''monthly'' then
        (case split_on CHR '','' schedule_value of
           [day, time_str] \<Rightarrow>
             (case py_int day of
                None \<Rightarrow> None
              | Some day_of_month \<Rightarrow>
                  Some \<lparr>every = 1, unit = ''day'', at_time = Some time_str,
                        job_action = CheckMonthly config_id day_of_month\<rparr>)
         | _ \<Rightarrow> None)
      else if schedule_type = ''custom'' then
        Some \<lparr>every = 1, unit = ''day'', at_time = Some ''00:00'',
              job_action = CheckCustom config_id schedule_value\<rparr>
      else None)"

text \<open>
  \<open>add_schedule(config_id, schedule_type, schedule_value)\<close>. \<open>accepts\<close> says whether the
  \<open>schedule\<close> library takes the job (its unit name and time format); the library is not
  part of the repository. The result is \<open>None\<close> when the call does not return: with the
  configuration already in \<open>schedules\<close> the method calls \<open>remove_schedule\<close>, which waits
  for the \<open>threading.Lock\<close> that \<open>add_schedule\<close> itself holds. The write of the schedule
  columns to \<open>sync_configs\<close> is left out.
\<close>

definition add_schedule ::
  "(job \<Rightarrow> bool) \<Rightarrow> scheduler \<Rightarrow> int \<Rightarrow> string \<Rightarrow> string \<Rightarrow> (scheduler \<times> bool) option" where
  "add_schedule accepts s config_id schedule_type schedule_value =
     (if \<not> running s then Some (s\<lparr>log := log s @ [NotRunning]\<rparr>, False)
      else if get_sync_config (db s) config_id = None then
        Some (s\<lparr>log := log s @ [NoConfig config_id]\<rparr>, False)
      else if config_id \<in> fst ` set (schedules s) then None
      else case make_job config_id schedule_type schedule_value of
        None \<Rightarrow> Some (s, False)
      | Some j \<Rightarrow>
          if \<not> accepts j then Some (s, False)
          else Some (s\<lparr>schedules := AList.update config_id
                          \<lparr>se_job = j, se_type = schedule_type, se_value = schedule_value\<rparr>
                          (schedules s)\<rparr>, True))"

subsection \<open>The worker thread and the timeout sweep\<close>

text \<open>
  \<open>_handle_sync_task(config_id, timestamp)\<close> up to the call of
  \<open>sync_manager.sync_config\<close>: the task is registered and a history row is opened.
\<close>

definition handle_sync_task_begin :: "scheduler \<Rightarrow> int \<Rightarrow> int \<Rightarrow> int \<Rightarrow> scheduler" where
  "handle_sync_task_begin s config_id timestamp now =
     (case get_sync_config (db s) config_id of
        None \<Rightarrow> s\<lparr>log := log s @ [NoConfig config_id]\<rparr>
      | Some config \<Rightarrow>
          (let (d, history_id) =
                 add_sync_history (db s) config_id ''running'' ScheduledStart (Some now) None now
           in s\<lparr>active_tasks := AList.update config_id
                    \<lparr>start_time = now, ti_status = ''running''\<rparr> (active_tasks s),
                db := d,
                worker := Some (config_id, timestamp, history_id)\<rparr>))"

text \<open>
  \<open>_handle_sync_task\<close> after \<open>sync_config\<close> came back: \<open>result\<close> is its return value, or
  \<open>None\<close> when it raised.
\<close>

definition handle_sync_task_end :: "scheduler \<Rightarrow> bool option \<Rightarrow> int \<Rightarrow> scheduler" where
  "handle_sync_task_end s result now =
     (case worker s of
        None \<Rightarrow> s
      | Some (config_id, timestamp, history_id) \<Rightarrow>
          (case result of
             Some r \<Rightarrow>
               (let status = (if r then ''completed'' else ''failed'');
                    d = update_sync_history (db s) history_id
                          (\<lambda>row. row\<lparr>h_status := status, h_message := ScheduledEnd status,
                                      h_end_time := Some now\<rparr>)
                in s\<lparr>db := d, active_tasks := AList.delete config_id (active_tasks s),
                     log := log s @ [Finished config_id status], worker := None\<rparr>)
           | None \<Rightarrow>
               (let (d, new_id) = add_sync_history (db s) config_id ''failed'' TaskRaised
                                    (Some timestamp) (Some now) now
                in s\<lparr>db := d, active_tasks := AList.delete config_id (active_tasks s),
                     log := log s @ [SyncFailed config_id], worker := None\<rparr>)))"

text \<open>
  One round of \<open>_process_tasks\<close>: the worker, when idle, takes the next task from the
  queue; \<open>_handle_task\<close> acts on tasks of type \<open>sync\<close> only.
\<close>

definition worker_take :: "scheduler \<Rightarrow> int \<Rightarrow> scheduler" where
  "worker_take s now =
     (case worker s of
        Some w \<Rightarrow> s
      | None \<Rightarrow>
          (case task_queue s of
             [] \<Rightarrow> s
           | t # q \<Rightarrow>
               if task_type t = ''sync''
               then handle_sync_task_begin (s\<lparr>task_queue := q\<rparr>) (task_config_id t) (task_timestamp t) now
               else s\<lparr>task_queue := q\<rparr>))"

text \<open>One sweep of \<open>_check_task_timeouts\<close> at time \<open>now\<close>.\<close>

definition check_task_timeouts :: "scheduler \<Rightarrow> int \<Rightarrow> scheduler" where
  "check_task_timeouts s now =
     (let tasks_to_remove =
            filter (\<lambda>(config_id, task_info). now - start_time task_info > task_timeout s)
              (active_tasks s);
          d = foldl (\<lambda>d (config_id, task_info).
                 fst (add_sync_history d config_id ''timeout'' (TaskTimeout (task_timeout s))
                        (Some (start_time task_info)) (Some now) now))
                (db s) tasks_to_remove
      in s\<lparr>db := d,
           log := log s @ map (\<lambda>(config_id, task_info). TimedOut config_id) tasks_to_remove,
           active_tasks := foldl (\<lambda>a config_id. AList.delete config_id a) (active_tasks s)
                             (map fst tasks_to_remove)\<rparr>)"

subsection \<open>Triggers from all sources, interleaved\<close>

text \<open>
  The scheduler together with the runs of \<open>SyncService.sync_config\<close> that are under way,
  one entry per executing thread. \<open>Orchestrator.trigger_sync(config_id)\<close> is
  \<open>return self.sync_service.sync_config(config_id)\<close>: it is what the monitor starts on a
  new thread for every ready event, and what a manual start calls; a run for an existing
  configuration begins there. The worker's run begins in \<open>worker_take\<close>.
\<close>

record system =
  sys_scheduler :: scheduler
  in_progress :: "int list"

datatype event =
    Tick int int
  | RunNow int int
  | WorkerTake int
  | WorkerDone "bool option" int
  | Sweep int
  | TriggerSync int
  | TriggerReturns int

fun step :: "system \<Rightarrow> event \<Rightarrow> system" where
  "step y (Tick config_id now) =
     y\<lparr>sys_scheduler := enqueue_sync_task (sys_scheduler y) config_id now\<rparr>"
| "step y (RunNow config_id now) =
     y\<lparr>sys_scheduler := fst (run_sync_now (sys_scheduler y) config_id now)\<rparr>"
| "step y (WorkerTake now) =
     (let s = worker_take (sys_scheduler y) now in
      case (worker (sys_scheduler y), worker s) of
        (None, Some (config_id, timestamp, history_id)) \<Rightarrow>
          \<lparr>sys_scheduler = s, in_progress = in_progress y @ [config_id]\<rparr>
      | _ \<Rightarrow> y\<lparr>sys_scheduler := s\<rparr>)"
| "step y (WorkerDone result now) =
     (case worker (sys_scheduler y) of
        None \<Rightarrow> y
      | Some (config_id, timestamp, history_id) \<Rightarrow>
          \<lparr>sys_scheduler = handle_sync_task_end (sys_scheduler y) result now,
           in_progress = remove1 config_id (in_progress y)\<rparr>)"
| "step y (Sweep now) =
     y\<lparr>sys_scheduler := check_task_timeouts (sys_scheduler y) now\<rparr>"
| "step y (TriggerSync config_id) =
     (if get_sync_config (db (sys_scheduler y)) config_id = None then y
      else y\<lparr>in_progress := in_progress y @ [config_id]\<rparr>)"
| "step y (TriggerReturns config_id) =
     y\<lparr>in_progress := remove1 config_id (in_progress y)\<rparr>"

definition steps :: "system \<Rightarrow> event list \<Rightarrow> system" where
  "steps y evs = foldl step y evs"

text \<open>A started scheduler with capacity \<open>K\<close>, an empty queue and no run under way.\<close>

definition start_system :: "nat \<Rightarrow> database \<Rightarrow> system" where
  "start_system K d =
     \<lparr>sys_scheduler = (init_scheduler d)\<lparr>running := True, max_concurrent_tasks := K\<rparr>,
      in_progress = []\<rparr>"

text \<open>A database with configurations 1 to 4 and nothing else.\<close>

definition local_config :: sync_config where
  "local_config = \<lparr>source_path = ''/a'', target_type = ''local'', target_path = ''/b'',
     delete_missing = True\<rparr>"

definition four_configs :: database where
  "four_configs = \<lparr>configs = [1 \<mapsto> local_config, 2 \<mapsto> local_config, 3 \<mapsto> local_config,
       4 \<mapsto> local_config],
     file_states = [], sync_history = [], last_history_id = 0, file_operations = []\<rparr>"

text \<open>
  Invariants of the interleaving. The single worker registers a task only while it is
  inside \<open>_handle_sync_task\<close> for it, so the active set holds at most the task of the
  worker; with capacity 0 nothing is ever queued. Without direct triggers the runs under
  way are the worker's.
\<close>

definition sched_inv :: "scheduler \<Rightarrow> bool" where
  "sched_inv s =
     ((case worker s of
         None \<Rightarrow> active_tasks s = []
       | Some (c, ts, h) \<Rightarrow> active_tasks s = [] \<or> (\<exists>i. active_tasks s = [(c, i)]))
      \<and> (max_concurrent_tasks s = 0 \<longrightarrow> task_queue s = [] \<and> worker s = None))"

definition runs_inv :: "system \<Rightarrow> bool" where
  "runs_inv y =
     (case worker (sys_scheduler y) of
        None \<Rightarrow> in_progress y = []
      | Some (c, ts, h) \<Rightarrow> in_progress y = [] \<or> in_progress y = [c])"

text \<open>A scheduler with three registered tasks, for configurations 1, 2 and 3.\<close>

definition busy_scheduler :: scheduler where
  "busy_scheduler = (init_scheduler four_configs)\<lparr>running := True,
     active_tasks := [(1, \<lparr>start_time = 0, ti_status = ''running''\<rparr>),
                      (2, \<lparr>start_time = 0, ti_status = ''running''\<rparr>),
                      (3, \<lparr>start_time = 0, ti_status = ''running''\<rparr>)]\<rparr>"

text \<open>The events that are calls of \<open>Orchestrator.trigger_sync\<close>.\<close>

fun direct_trigger :: "event \<Rightarrow> bool" where
  "direct_trigger (TriggerSync config_id) = True"
| "direct_trigger e = False"

section \<open>Reconciler for a local target\<close>

text \<open>
  A directory tree: the regular files below a root, by relative path, in the order in
  which \<open>os.walk\<close> meets them. Directories are not listed on their own.
\<close>

type_synonym tree = "(path \<times> file_info) list"

text \<open>
  A path that \<open>_get_files_list\<close> skips: a directory or file name on it starts with a dot.
\<close>

definition hidden :: "path \<Rightarrow> bool" where
  "hidden p = list_ex (\<lambda>name. name \<noteq> [] \<and> hd name = CHR ''.'') p"

text \<open>
  \<open>_get_files_list(folder_path)\<close>: the keys of the dictionary it returns. A folder that does
  not exist gives no entry, because \<open>os.walk\<close> yields nothing for it.
\<close>

fun get_files_list :: "tree option \<Rightarrow> path list" where
  "get_files_list None = []"
| "get_files_list (Some t) = map fst (filter (\<lambda>(p, f). \<not> hidden p) t)"

text \<open>\<open>target_file + ".bak"\<close>: the suffix goes on the file name.\<close>

definition bak :: "path \<Rightarrow> path" where
  "bak p = butlast p @ [last p @ ''.bak'']"

text \<open>
  What the operating system may refuse during a run. Each field answers for the
  relative path of the file being handled:
  \<open>mkdir_fails\<close>: the directory of the target file is missing and \<open>os.makedirs\<close> raises;
  \<open>copy_fails\<close>: \<open>shutil.copy2(source_file, target_file)\<close> raises;
  \<open>backup_fails\<close>: \<open>shutil.copy2(target_file, backup_file)\<close> raises;
  \<open>unbackup_fails\<close>: \<open>os.remove\<close> of the backup raises;
  \<open>remove_fails\<close>: \<open>os.remove(file_path)\<close> in \<open>_delete_file\<close> raises;
  \<open>target_mkdir_fails\<close>: \<open>os.makedirs(target_path)\<close> raises.
\<close>

record faults =
  mkdir_fails :: "path \<Rightarrow> bool"
  copy_fails :: "path \<Rightarrow> bool"
  backup_fails :: "path \<Rightarrow> bool"
  unbackup_fails :: "path \<Rightarrow> bool"
  remove_fails :: "path \<Rightarrow> bool"
  target_mkdir_fails :: bool

record sync_stats =
  copied :: nat
  updated :: nat
  deleted :: nat
  skipped :: nat
  errors :: nat

text \<open>
  The calls that change the destination or the \<open>file_states\<close> table, in program order:
  the copy of \<open>_copy_file\<close> and the removal of \<open>_delete_file\<close> with the value the method
  returns, and the two writes to \<open>file_states\<close>.
\<close>

datatype effect = Put path bool | Remove path bool | StateUpsert path | StateDelete path

text \<open>
  What a run of \<open>sync_folders\<close> works on: the destination tree, the database,
  \<open>self.sync_stats\<close>, and the calls made so far.
\<close>

record engine =
  dst :: tree
  edb :: database
  stats :: sync_stats
  effects :: "effect list"

definition count_error :: "engine \<Rightarrow> engine" where
  "count_error e = e\<lparr>stats := (stats e)\<lparr>errors := Suc (errors (stats e))\<rparr>\<rparr>"

text \<open>
  \<open>_need_update(source_file, target_file, config_id, rel_path)\<close>. A file missing on either
  side makes \<open>os.stat\<close> raise, and the \<open>except\<close> answers \<open>True\<close>. A \<open>NULL\<close> hash in the
  table differs from every string.
\<close>

definition need_update :: "tree \<Rightarrow> engine \<Rightarrow> int \<Rightarrow> path \<Rightarrow> bool" where
  "need_update source e config_id rel_path =
     (case map_of source rel_path of
        None \<Rightarrow> True
      | Some source_stat \<Rightarrow>
          (case map_of (dst e) rel_path of
             None \<Rightarrow> True
           | Some target_stat \<Rightarrow>
               if st_size source_stat \<noteq> st_size target_stat then True
               else if st_mtime source_stat > st_mtime target_stat then True
               else if digest source_stat \<noteq> digest target_stat then True
               else (case find (\<lambda>state. file_path state = rel_path)
                            (get_file_states (file_states (edb e)) config_id) of
                       Some state \<Rightarrow> file_hash state \<noteq> Some (digest source_stat)
                     | None \<Rightarrow> False)))"

text \<open>
  \<open>_copy_file(source_file, target_file)\<close>: a target that exists is first copied to its
  \<open>.bak\<close> name; after the copy of the source the backup is removed again. When the copy
  raises, the error is counted and a backup already made stays. \<open>copy2\<close> carries size,
  modification time and content over.
\<close>

definition copy_file :: "faults \<Rightarrow> tree \<Rightarrow> engine \<Rightarrow> path \<Rightarrow> engine \<times> bool" where
  "copy_file fl source e rel_path =
     (let backup_created = (map_of (dst e) rel_path \<noteq> None \<and> \<not> backup_fails fl rel_path);
          e1 = (case map_of (dst e) rel_path of
                  Some old \<Rightarrow>
                    if backup_fails fl rel_path then e
                    else e\<lparr>dst := AList.update (bak rel_path) old (dst e)\<rparr>
                | None \<Rightarrow> e)
      in case map_of source rel_path of
           None \<Rightarrow> ((count_error e1)\<lparr>effects := effects e1 @ [Put rel_path False]\<rparr>, False)
         | Some f \<Rightarrow>
             if copy_fails fl rel_path
             then ((count_error e1)\<lparr>effects := effects e1 @ [Put rel_path False]\<rparr>, False)
             else
               (let e2 = e1\<lparr>dst := AList.update rel_path f (dst e1)\<rparr>;
                    e3 = (if backup_created \<and> \<not> unbackup_fails fl rel_path
                          then e2\<lparr>dst := AList.delete (bak rel_path) (dst e2)\<rparr> else e2)
                in (e3\<lparr>effects := effects e3 @ [Put rel_path True]\<rparr>, True)))"

text \<open>
  \<open>_delete_file(file_path)\<close> for a path taken from the listing of files. When nothing is
  at the path any more the method falls through both tests and returns \<open>None\<close>, without
  counting an error.
\<close>

definition delete_file :: "faults \<Rightarrow> engine \<Rightarrow> path \<Rightarrow> engine \<times> bool" where
  "delete_file fl e rel_path =
     (case map_of (dst e) rel_path of
        None \<Rightarrow> (e, False)
      | Some f \<Rightarrow>
          if remove_fails fl rel_path
          then ((count_error e)\<lparr>effects := effects e @ [Remove rel_path False]\<rparr>, False)
          else (e\<lparr>dst := AList.delete rel_path (dst e),
                  effects := effects e @ [Remove rel_path True]\<rparr>, True))"

text \<open>
  \<open>_update_file_state_in_db(config_id, rel_path, file_path, sync_status)\<close>: when the file
  is gone \<open>os.stat\<close> raises and the \<open>except\<close> only logs.
\<close>

definition update_file_state_in_db :: "tree \<Rightarrow> engine \<Rightarrow> int \<Rightarrow> path \<Rightarrow> string \<Rightarrow> engine" where
  "update_file_state_in_db source e config_id rel_path status =
     (case map_of source rel_path of
        None \<Rightarrow> e
      | Some f \<Rightarrow>
          e\<lparr>edb := (edb e)\<lparr>file_states :=
                 update_file_state (file_states (edb e)) config_id rel_path
                   (Some (digest f)) (Some (st_mtime f)) status\<rparr>,
            effects := effects e @ [StateUpsert rel_path]\<rparr>)"

text \<open>
  \<open>add_file_operation\<close> as \<open>sync_folders\<close> calls it, under \<open>if self.current_sync_id\<close>;
  the status is always \<open>success\<close>.
\<close>

definition log_operation :: "engine \<Rightarrow> nat \<Rightarrow> string \<Rightarrow> path \<Rightarrow> nat \<Rightarrow> engine" where
  "log_operation e sync_id op rel_path file_size =
     (if sync_id = 0 then e
      else e\<lparr>edb := (edb e)\<lparr>file_operations := file_operations (edb e) @
             [\<lparr>op_history_id = sync_id, operation_type = op, op_file_path = rel_path,
               op_file_size = file_size, op_status = ''success''\<rparr>]\<rparr>\<rparr>)"

definition source_size :: "tree \<Rightarrow> path \<Rightarrow> nat" where
  "source_size source rel_path = (case map_of source rel_path of Some f \<Rightarrow> st_size f | None \<Rightarrow> 0)"

text \<open>One round of the loop \<open>for rel_path in source_files\<close> of \<open>sync_folders\<close>.\<close>

definition sync_source_file ::
  "faults \<Rightarrow> tree \<Rightarrow> path list \<Rightarrow> int \<Rightarrow> nat \<Rightarrow> engine \<Rightarrow> path \<Rightarrow> engine" where
  "sync_source_file fl source target_files config_id sync_id e rel_path =
     (if mkdir_fails fl rel_path then count_error e
      else if rel_path \<notin> set target_files then
        (let (e1, ok) = copy_file fl source e rel_path in
         if ok then
           (let e2 = e1\<lparr>stats := (stats e1)\<lparr>copied := Suc (copied (stats e1))\<rparr>\<rparr>;
                e3 = update_file_state_in_db source e2 config_id rel_path ''synced''
            in log_operation e3 sync_id ''copied'' rel_path (source_size source rel_path))
         else e1)
      else if need_update source e config_id rel_path then
        (let (e1, ok) = copy_file fl source e rel_path in
         if ok then
           (let e2 = e1\<lparr>stats := (stats e1)\<lparr>updated := Suc (updated (stats e1))\<rparr>\<rparr>;
                e3 = update_file_state_in_db source e2 config_id rel_path ''synced''
            in log_operation e3 sync_id ''updated'' rel_path (source_size source rel_path))
         else e1)
      else e\<lparr>stats := (stats e)\<lparr>skipped := Suc (skipped (stats e))\<rparr>\<rparr>)"

text \<open>
  One round of the loop \<open>for rel_path in target_files\<close> of the delete pass;
  \<open>synced_files\<close> is the set read from \<open>file_states\<close> before the loop.
\<close>

definition delete_target_file ::
  "faults \<Rightarrow> path list \<Rightarrow> path list \<Rightarrow> int \<Rightarrow> nat \<Rightarrow> engine \<Rightarrow> path \<Rightarrow> engine" where
  "delete_target_file fl source_files synced_files config_id sync_id e rel_path =
     (if rel_path \<in> set source_files then e
      else if rel_path \<in> set synced_files then
        (let (e1, ok) = delete_file fl e rel_path in
         if ok then
           (let e2 = e1\<lparr>stats := (stats e1)\<lparr>deleted := Suc (deleted (stats e1))\<rparr>\<rparr>;
                e3 = e2\<lparr>edb := (edb e2)\<lparr>file_states :=
                          delete_file_state (file_states (edb e2)) config_id rel_path\<rparr>,
                        effects := effects e2 @ [StateDelete rel_path]\<rparr>
            in log_operation e3 sync_id ''deleted'' rel_path 0)
         else e1)
      else e)"

text \<open>The two loops of \<open>sync_folders\<close>.\<close>

definition copy_pass ::
  "faults \<Rightarrow> tree \<Rightarrow> path list \<Rightarrow> int \<Rightarrow> nat \<Rightarrow> engine \<Rightarrow> path list \<Rightarrow> engine" where
  "copy_pass fl source target_files config_id sync_id e source_files =
     foldl (sync_source_file fl source target_files config_id sync_id) e source_files"

definition delete_pass ::
  "faults \<Rightarrow> path list \<Rightarrow> path list \<Rightarrow> int \<Rightarrow> nat \<Rightarrow> engine \<Rightarrow> engine" where
  "delete_pass fl source_files target_files config_id sync_id e =
     (let synced_files = map file_path (get_file_states (file_states (edb e)) config_id)
      in foldl (delete_target_file fl source_files synced_files config_id sync_id) e target_files)"

text \<open>The source and the destination folder of one configuration; \<open>None\<close> when the folder does not exist.\<close>

record world =
  source :: "tree option"
  target :: "tree option"

text \<open>What \<open>sync_folders\<close> returns and leaves behind.\<close>

record outcome =
  out_stats :: sync_stats
  out_target :: "tree option"
  out_db :: database
  out_effects :: "effect list"

definition no_stats :: sync_stats where
  "no_stats = \<lparr>copied = 0, updated = 0, deleted = 0, skipped = 0, errors = 0\<rparr>"

text \<open>
  The closing \<open>update_sync_history\<close> of \<open>sync_folders\<close>: the columns it sets in the row
  of the run, and the call under \<open>if self.current_sync_id\<close>.
\<close>

definition finish_row :: "sync_stats \<Rightarrow> int \<Rightarrow> hist_row \<Rightarrow> hist_row" where
  "finish_row st now row =
     row\<lparr>h_status := (if errors st = 0 then ''success'' else ''error''),
         h_message := Summary (copied st) (updated st) (deleted st) (skipped st) (errors st),
         files_count := copied st + updated st + skipped st,
         files_processed := copied st + updated st,
         files_copied := copied st,
         files_updated := updated st,
         files_deleted := deleted st,
         h_errors := errors st,
         h_end_time := Some now\<rparr>"

definition finish_history :: "database \<Rightarrow> nat \<Rightarrow> sync_stats \<Rightarrow> int \<Rightarrow> database" where
  "finish_history d sync_id st now =
     (if sync_id = 0 then d
      else update_sync_history d sync_id (finish_row st now))"

text \<open>
  The two loops of \<open>sync_folders\<close> one after the other, from the listings taken before
  the first: the copy loop over the source files, then, under \<open>if delete_mode\<close>, the
  delete loop over the target files.
\<close>

definition run_passes ::
  "faults \<Rightarrow> tree \<Rightarrow> tree \<Rightarrow> database \<Rightarrow> int \<Rightarrow> bool \<Rightarrow> nat \<Rightarrow> engine" where
  "run_passes fl src tgt d config_id delete_mode sync_id =
     (let source_files = get_files_list (Some src);
          target_files = get_files_list (Some tgt);
          e0 = \<lparr>dst = tgt, edb = d, stats = no_stats, effects = []\<rparr>;
          e1 = copy_pass fl src target_files config_id sync_id e0 source_files
      in if delete_mode
         then delete_pass fl source_files target_files config_id sync_id e1
         else e1)"

text \<open>
  \<open>sync_folders(config_id, source_path, target_path, delete_mode, history_id)\<close> on the
  folders of \<open>w\<close>, at time \<open>now\<close>.
\<close>

definition sync_folders ::
  "faults \<Rightarrow> world \<Rightarrow> database \<Rightarrow> int \<Rightarrow> bool \<Rightarrow> nat \<Rightarrow> int \<Rightarrow> outcome" where
  "sync_folders fl w d config_id delete_mode history_id now =
     (let (d1, sync_id) =
            (if history_id \<noteq> 0 then (d, history_id)
             else add_sync_history d config_id ''in_progress'' LocalStart None None now)
      in case source w of
           None \<Rightarrow>
             \<lparr>out_stats = no_stats, out_target = target w,
              out_db = (if sync_id = 0 then d1
                        else update_sync_history d1 sync_id
                               (\<lambda>row. row\<lparr>h_status := ''error'', h_message := SourceMissing\<rparr>)),
              out_effects = []\<rparr>
         | Some src \<Rightarrow>
             if target w = None \<and> target_mkdir_fails fl then
               \<lparr>out_stats = no_stats\<lparr>errors := 1\<rparr>, out_target = None,
                out_db = (if sync_id = 0 then d1
                          else update_sync_history d1 sync_id
                                 (\<lambda>row. row\<lparr>h_status := ''error'', h_message := TargetNotCreated\<rparr>)),
                out_effects = []\<rparr>
             else
               (let tgt = (case target w of None \<Rightarrow> [] | Some t \<Rightarrow> t);
                    e2 = run_passes fl src tgt d1 config_id delete_mode sync_id
                in \<lparr>out_stats = stats e2, out_target = Some (dst e2),
                    out_db = finish_history (edb e2) sync_id (stats e2) now,
                    out_effects = effects e2\<rparr>))"

text \<open>
  \<open>update_file_states(config_id, source_path)\<close>: every listed source file gets its row,
  then the rows of the configuration whose path is not listed are deleted.
\<close>

definition update_file_states :: "tree option \<Rightarrow> engine \<Rightarrow> int \<Rightarrow> engine" where
  "update_file_states src e config_id =
     (let source_files = get_files_list src;
          tree = (case src of None \<Rightarrow> [] | Some t \<Rightarrow> t);
          e1 = foldl (\<lambda>e rel_path. update_file_state_in_db tree e config_id rel_path ''synced'')
                 e source_files;
          rows = get_file_states (file_states (edb e1)) config_id
      in foldl (\<lambda>e state.
                  if file_path state \<notin> set source_files
                  then e\<lparr>edb := (edb e)\<lparr>file_states :=
                           delete_file_state (file_states (edb e)) config_id (file_path state)\<rparr>,
                         effects := effects e @ [StateDelete (file_path state)]\<rparr>
                  else e)
           e1 rows)"

section \<open>Service and scheduled run\<close>

text \<open>
  \<open>SyncService.sync_config(config_id)\<close>. The field \<open>target_path\<close> of the configuration
  stands for \<open>target_settings.get('path') or config.get('target_path')\<close>. The managers of
  the five remote target types are outside the model: \<open>remote\<close> gives, for the type and
  the database, either \<open>None\<close> (the connection failed or the manager raised) or the
  statistics it returned, and the database it left. The result is the returned flag, the
  folders, the database and the calls made on the destination and on \<open>file_states\<close>.
\<close>

definition remote_types :: "string list" where
  "remote_types = [''gdrive'', ''ftp'', ''smb'', ''s3'', ''dropbox'']"

definition service_failed :: "database \<Rightarrow> nat \<Rightarrow> int \<Rightarrow> database" where
  "service_failed d history_id now =
     update_sync_history d history_id
       (\<lambda>row. row\<lparr>h_status := ''failed'', h_message := ServiceRaised, h_end_time := Some now\<rparr>)"

text \<open>The closing part of \<open>sync_config\<close>, after the manager has returned \<open>result\<close>.\<close>

definition service_finish :: "database \<Rightarrow> nat \<Rightarrow> sync_stats \<Rightarrow> int \<Rightarrow> database" where
  "service_finish d history_id result now =
     (let success = (errors result = 0);
          status = (if success then ''completed'' else ''failed'');
          msg = Summary (copied result) (updated result) (deleted result) (skipped result)
                  (errors result)
      in case get_sync_history_record d history_id of
           None \<Rightarrow> d
         | Some history_record \<Rightarrow>
             if h_status history_record \<in> {''running'', ''in_progress''}
             then update_sync_history d history_id
                    (\<lambda>row. row\<lparr>h_status := status, h_message := msg, h_end_time := Some now,
                                files_copied := copied result, files_updated := updated result,
                                files_deleted := deleted result, h_errors := errors result\<rparr>)
             else d)"

definition sync_config ::
  "(string \<Rightarrow> database \<Rightarrow> sync_stats option \<times> database) \<Rightarrow> faults \<Rightarrow> world \<Rightarrow> database
     \<Rightarrow> int \<Rightarrow> int \<Rightarrow> bool \<times> world \<times> database \<times> effect list" where
  "sync_config remote fl w d config_id now =
     (case get_sync_config d config_id of
        None \<Rightarrow> (False, w, d, [])
      | Some config \<Rightarrow>
          (let (d1, history_id) =
                 add_sync_history d config_id ''running'' ServiceStart (Some now) None now
           in if target_type config = ''local'' then
                if target_path config = [] then (False, w, service_failed d1 history_id now, [])
                else
                  (let out = sync_folders fl w d1 config_id (delete_missing config) history_id now;
                       success = (errors (out_stats out) = 0);
                       e = update_file_states (source w)
                             \<lparr>dst = [], edb = out_db out, stats = out_stats out,
                              effects = out_effects out\<rparr> config_id
                   in (success, w\<lparr>target := out_target out\<rparr>,
                       service_finish (edb e) history_id (out_stats out) now, effects e))
              else if target_type config \<in> set remote_types then
                (case remote (target_type config) d1 of
                   (None, d2) \<Rightarrow> (False, w, service_failed d2 history_id now, [])
                 | (Some result, d2) \<Rightarrow>
                     (errors result = 0, w, service_finish d2 history_id result now, []))
              else (False, w, service_failed d1 history_id now, [])))"

text \<open>
  \<open>_handle_sync_task(config_id, timestamp)\<close> from start to end, with the run of
  \<open>sync_config\<close> in the middle (the scheduler's \<open>sync_manager\<close> is the orchestrator, whose
  \<open>sync_config\<close> hands over to the service). \<open>raises\<close> says that this call raises
  instead of returning, which takes \<open>_handle_sync_task\<close> to its \<open>except\<close> branch. The
  service catches what its managers raise; an exception leaves it only from outside its
  \<open>try\<close> (the database refusing the read of the configuration or the insert of the
  history row) or from its own \<open>except\<close> handler. The model takes the first of these
  points, where the service has written nothing yet.
\<close>

definition handle_sync_task ::
  "(string \<Rightarrow> database \<Rightarrow> sync_stats option \<times> database) \<Rightarrow> faults \<Rightarrow> bool \<Rightarrow> world \<Rightarrow> scheduler
     \<Rightarrow> int \<Rightarrow> int \<Rightarrow> int \<Rightarrow> scheduler \<times> world" where
  "handle_sync_task remote fl raises w s config_id timestamp now =
     (let s1 = handle_sync_task_begin s config_id timestamp now in
      if get_sync_config (db s) config_id = None then (s1, w)
      else if raises then (handle_sync_task_end s1 None now, w)
      else
        (let (result, w1, d1, effs) = sync_config remote fl w (db s1) config_id now
         in (handle_sync_task_end (s1\<lparr>db := d1\<rparr>) (Some result) now, w1)))"

text \<open>
  The statistics that \<open>sync_folders\<close> returns to \<open>SyncService.sync_config\<close> in a run for a
  local configuration \<open>cfg\<close>: the engine works on the database in which the service has
  opened its history row, under the id of that row.
\<close>

abbreviation engine_stats ::
  "faults \<Rightarrow> world \<Rightarrow> database \<Rightarrow> int \<Rightarrow> sync_config \<Rightarrow> int \<Rightarrow> sync_stats" where
  "engine_stats fl w d config_id cfg now \<equiv>
     out_stats (sync_folders fl w
       (fst (add_sync_history d config_id ''running'' ServiceStart (Some now) None now))
       config_id (delete_missing cfg) (Suc (last_history_id d)) now)"

text \<open>Rows of \<open>sync_history\<close> that are still open.\<close>

definition open_rows :: "database \<Rightarrow> hist_row list" where
  "open_rows d = filter (\<lambda>r. h_status r \<in> {''running'', ''in_progress''}) (sync_history d)"

text \<open>
  Every id in \<open>sync_history\<close> was given out by the counter, each once.
\<close>

definition history_ok :: "database \<Rightarrow> bool" where
  "history_ok d = (distinct (map h_id (sync_history d))
                   \<and> list_all (\<lambda>r. h_id r \<le> last_history_id d) (sync_history d))"

section \<open>Example inputs\<close>

definition no_faults :: faults where
  "no_faults = \<lparr>mkdir_fails = (\<lambda>p. False), copy_fails = (\<lambda>p. False),
     backup_fails = (\<lambda>p. False), unbackup_fails = (\<lambda>p. False),
     remove_fails = (\<lambda>p. False), target_mkdir_fails = False\<rparr>"

definition no_remote :: "string \<Rightarrow> database \<Rightarrow> sync_stats option \<times> database" where
  "no_remote ty d = (None, d)"

definition one_config :: database where
  "one_config = \<lparr>configs = [1 \<mapsto> local_config],
     file_states = [], sync_history = [], last_history_id = 0, file_operations = []\<rparr>"

definition file_a :: file_info where
  "file_a = \<lparr>st_size = 10, st_mtime = 100, digest = ''aa''\<rparr>"

definition file_b :: file_info where
  "file_b = \<lparr>st_size = 20, st_mtime = 200, digest = ''bb''\<rparr>"

definition file_c :: file_info where
  "file_c = \<lparr>st_size = 30, st_mtime = 50, digest = ''cc''\<rparr>"

text \<open>The paths that have a row in \<open>file_states\<close> under a configuration.\<close>

definition state_paths :: "fs_row list \<Rightarrow> int \<Rightarrow> path set" where
  "state_paths rows cid = file_path ` set (get_file_states rows cid)"

text \<open>
  A source with a visible and a hidden file, a destination that already holds the
  visible file unchanged, and a database with a row for a path that is in neither.
\<close>

definition settled_world :: world where
  "settled_world = \<lparr>source = Some [([''x.txt''], file_a), ([''.git'', ''config''], file_b)],
                     target = Some [([''x.txt''], file_a)]\<rparr>"

definition stale_db :: database where
  "stale_db = one_config\<lparr>file_states :=
     [\<lparr>fs_config_id = 1, file_path = [''old.txt''], file_hash = Some ''cc'',
       modified_time = Some 50, sync_status = ''synced''\<rparr>]\<rparr>"

text \<open>A source with one file and an empty destination; a started scheduler with nothing to do.\<close>

definition fresh_world :: world where
  "fresh_world = \<lparr>source = Some [([''x.txt''], file_a)], target = Some []\<rparr>"

definition idle_scheduler :: scheduler where
  "idle_scheduler = (init_scheduler one_config)\<lparr>running := True\<rparr>"

section \<open>Measures on a run\<close>

text \<open>
  A sequence of calls is in order when every write of a \<open>file_states\<close> row comes
  directly after the successful call on the destination for the same path: the upsert
  after the copy, the deletion after the removal. \<open>prev\<close> is the call before.
\<close>

fun justified :: "effect option \<Rightarrow> effect list \<Rightarrow> bool" where
  "justified prev [] = True"
| "justified prev (StateUpsert p # es) =
     (prev = Some (Put p True) \<and> justified (Some (StateUpsert p)) es)"
| "justified prev (StateDelete p # es) =
     (prev = Some (Remove p True) \<and> justified (Some (StateDelete p)) es)"
| "justified prev (e # es) = justified (Some e) es"

text \<open>The rows of \<open>file_states\<close> for one configuration and path.\<close>

definition rows_of :: "fs_row list \<Rightarrow> int \<Rightarrow> path \<Rightarrow> fs_row list" where
  "rows_of rows cid p = filter (\<lambda>r. fs_config_id r = cid \<and> file_path r = p) rows"

text \<open>
  A path is accounted for when its rows are as they were at the start or a write of its
  row is among the calls made.
\<close>

definition accounted :: "engine \<Rightarrow> fs_row list \<Rightarrow> int \<Rightarrow> path \<Rightarrow> bool" where
  "accounted e rows0 cid p =
     (rows_of (file_states (edb e)) cid p = rows_of rows0 cid p
      \<or> StateUpsert p \<in> set (effects e) \<or> StateDelete p \<in> set (effects e))"

text \<open>How many source files a run has gone through: each ends in exactly one counter.\<close>

definition handled :: "sync_stats \<Rightarrow> nat" where
  "handled st = copied st + updated st + skipped st + errors st"

text \<open>Two source files and an empty destination; the copy of \<open>x.txt\<close> is refused.\<close>

definition two_files :: world where
  "two_files = \<lparr>source = Some [([''x.txt''], file_a), ([''y.txt''], file_b)], target = Some []\<rparr>"

definition x_fails :: faults where
  "x_fails = no_faults\<lparr>copy_fails := (\<lambda>p. p = [''x.txt''])\<rparr>"

text \<open>
  Destinations that hold a file under the backup name of a source file: \<open>x.txt.bak\<close>
  beside \<open>x.txt\<close>, first as a file that only the destination has, then as a copy of a
  source file of that name.
\<close>

definition bak_world :: world where
  "bak_world = \<lparr>source = Some [([''x.txt''], file_b)],
                 target = Some [([''x.txt''], file_a), ([''x.txt.bak''], file_c)]\<rparr>"







section \<open>Theorems: change monitor\<close>

lemma handle_sync_callback [simp]: "sync_callback (handle cid rel m e) = sync_callback m"
  by (cases "(cid, rel, m, e)" rule: handle.cases)
     (auto simp: handle_file_created_def handle_file_modified_def ready_created_def
        ready_modified_def Let_def split: option.splits)

lemma handle_known_configs [simp]: "known_configs (handle cid rel m e) = known_configs m"
  by (cases "(cid, rel, m, e)" rule: handle.cases)
     (auto simp: handle_file_created_def handle_file_modified_def ready_created_def
        ready_modified_def Let_def split: option.splits)

lemma triggers_iff:
  assumes "sync_callback m" and "cid \<in> known_configs m"
  shows "triggers cid rel m e \<longleftrightarrow>
           (observed e = 0 \<or> file_sizes m (cid, rel) = Some (observed e))"
  using assms
  by (cases "(cid, rel, m, e)" rule: handle.cases)
     (auto simp: triggers_def observed_def handle_file_created_def handle_file_modified_def
        ready_created_def ready_modified_def Let_def split: option.splits)

lemma file_sizes_after:
  assumes "cid \<in> known_configs m"
  shows "file_sizes (handle cid rel m e) (cid, rel) =
           (if observed e = 0 \<or> file_sizes m (cid, rel) = Some (observed e)
            then None else Some (observed e))"
  using assms
  by (cases "(cid, rel, m, e)" rule: handle.cases)
     (auto simp: observed_def handle_file_created_def handle_file_modified_def
        ready_created_def ready_modified_def Let_def split: option.splits)

lemma started_after:
  assumes "sync_callback m" and "cid \<in> known_configs m"
  shows "started (handle cid rel m e) =
           (if observed e = 0 \<or> file_sizes m (cid, rel) = Some (observed e)
            then started m @ [cid] else started m)"
  using assms
  by (cases "(cid, rel, m, e)" rule: handle.cases)
     (auto simp: observed_def handle_file_created_def handle_file_modified_def
        ready_created_def ready_modified_def Let_def split: option.splits)

lemma run_events_append:
  "run_events cid rel m (es @ es') = run_events cid rel (run_events cid rel m es) es'"
  by (induction es arbitrary: m) simp_all

lemma run_events_known [simp]: "known_configs (run_events cid rel m es) = known_configs m"
  by (induction es arbitrary: m) simp_all

lemma run_events_callback [simp]: "sync_callback (run_events cid rel m es) = sync_callback m"
  by (induction es arbitrary: m) simp_all

text \<open>
  While every observation is non-zero and larger than the one before (and than the
  recorded size, if any), no synchronisation is started.
\<close>

lemma growing_no_trigger:
  assumes "sync_callback m" and "cid \<in> known_configs m"
    and "sorted_wrt (<) (map observed es)"
    and "\<forall>e \<in> set es. 0 < observed e"
    and "\<forall>n. file_sizes m (cid, rel) = Some n \<longrightarrow> (\<forall>e \<in> set es. n < observed e)"
  shows "started (run_events cid rel m es) = started m"
  using assms
proof (induction es arbitrary: m)
  case Nil
  then show ?case by simp
next
  case (Cons e es)
  have fs: "file_sizes (handle cid rel m e) (cid, rel) = Some (observed e)"
    using Cons.prems by (auto simp: file_sizes_after)
  have st: "started (handle cid rel m e) = started m"
    using Cons.prems by (auto simp: started_after)
  have "started (run_events cid rel (handle cid rel m e) es) = started (handle cid rel m e)"
    using Cons.prems fs by (intro Cons.IH) auto
  with st show ?case by simp
qed

lemma growing_at_most_once:
  assumes "sync_callback m" and "cid \<in> known_configs m"
    and "sorted_wrt (<) (map observed es)"
  shows "length (started (run_events cid rel m es)) \<le> Suc (length (started m))"
proof (cases es)
  case Nil
  then show ?thesis by simp
next
  case (Cons e es')
  let ?m = "handle cid rel m e"
  have pos: "\<forall>x \<in> set es'. 0 < observed x"
    using assms(3) Cons by auto
  have above: "\<forall>n. file_sizes ?m (cid, rel) = Some n \<longrightarrow> (\<forall>x \<in> set es'. n < observed x)"
    using assms(2,3) Cons by (auto simp: file_sizes_after split: if_splits)
  have "started (run_events cid rel ?m es') = started ?m"
    using assms Cons pos above by (intro growing_no_trigger) auto
  moreover have "length (started ?m) \<le> Suc (length (started m))"
    using assms by (simp add: started_after)
  ultimately show ?thesis using Cons by simp
qed

text \<open>After any event the record is either cleared or holds the size just observed.\<close>

lemma file_sizes_last:
  assumes "cid \<in> known_configs m" and "es \<noteq> []"
  shows "file_sizes (run_events cid rel m es) (cid, rel) = None \<or>
         file_sizes (run_events cid rel m es) (cid, rel) = Some (observed (last es))"
  using assms
proof (induction es arbitrary: m rule: rev_induct)
  case Nil
  then show ?case by simp
next
  case (snoc e es)
  then show ?case by (simp add: run_events_append file_sizes_after)
qed

lemma trigger_needs_equal_pair:
  assumes "sync_callback m" and "cid \<in> known_configs m"
    and "file_sizes m (cid, rel) = None"
    and "triggers cid rel (run_events cid rel m es) e" and "observed e \<noteq> 0"
  shows "es \<noteq> [] \<and> observed (last es) = observed e"
proof -
  have t: "file_sizes (run_events cid rel m es) (cid, rel) = Some (observed e)"
    using assms by (simp add: triggers_iff)
  show ?thesis
  proof (cases "es = []")
    case True
    with t assms(3) show ?thesis by simp
  next
    case False
    with file_sizes_last[OF assms(2) False, of rel] t show ?thesis by auto
  qed
qed

text \<open>
  C6. With a callback installed and the configuration present, a create or modify event
  for an existing file starts a synchronisation exactly when the size read is 0 or equals
  the recorded size; otherwise the event only records the size read (a first non-zero
  observation, or one that differs from the record), and a start clears the record.
  Hence a run of events whose sizes strictly grow starts at most one synchronisation,
  and, from a path with nothing recorded, a start on a non-zero size comes directly
  after an observation of the same size.
\<close>

theorem size_stability_state_machine:
  assumes "sync_callback m" and "cid \<in> known_configs m"
  shows "(triggers cid rel m e \<longleftrightarrow>
            observed e = 0 \<or> file_sizes m (cid, rel) = Some (observed e))
       \<and> file_sizes (handle cid rel m e) (cid, rel) =
            (if triggers cid rel m e then None else Some (observed e))
       \<and> (sorted_wrt (<) (map observed es) \<longrightarrow>
            length (started (run_events cid rel m es)) \<le> Suc (length (started m)))
       \<and> (file_sizes m (cid, rel) = None \<and> observed e \<noteq> 0
            \<and> triggers cid rel (run_events cid rel m es) e \<longrightarrow>
            es \<noteq> [] \<and> observed (last es) = observed e)"
proof (intro conjI impI)
  show "triggers cid rel m e \<longleftrightarrow>
          observed e = 0 \<or> file_sizes m (cid, rel) = Some (observed e)"
    using assms by (rule triggers_iff)
  show "file_sizes (handle cid rel m e) (cid, rel) =
          (if triggers cid rel m e then None else Some (observed e))"
    using assms by (simp add: file_sizes_after triggers_iff)
  show "length (started (run_events cid rel m es)) \<le> Suc (length (started m))"
    if "sorted_wrt (<) (map observed es)"
    using assms that by (rule growing_at_most_once)
  show "es \<noteq> []" "observed (last es) = observed e"
    if "file_sizes m (cid, rel) = None \<and> observed e \<noteq> 0
          \<and> triggers cid rel (run_events cid rel m es) e"
    using trigger_needs_equal_pair[OF assms, of rel es e] that by simp_all
qed

theorem size_stability_state_machine_witness:
  "sync_callback fresh_monitor \<and> 1 \<in> known_configs fresh_monitor
   \<and> sorted_wrt (<) (map observed [(Created, 1, sized 10), (Modified, 2, sized 20)])
   \<and> file_sizes fresh_monitor (1, [''x.txt'']) = None
   \<and> observed (Modified, 3, sized 20) \<noteq> 0
   \<and> triggers 1 [''x.txt'']
        (run_events 1 [''x.txt''] fresh_monitor [(Created, 1, sized 10), (Modified, 2, sized 20)])
        (Modified, 3, sized 20)
   \<and> \<not> triggers 1 [''x.txt''] fresh_monitor (Modified, 3, sized 20)
   \<and> file_sizes (handle 1 [''x.txt''] fresh_monitor (Modified, 3, sized 20)) (1, [''x.txt''])
        = Some 20
   \<and> length (started (run_events 1 [''x.txt''] fresh_monitor
        [(Created, 1, sized 10), (Modified, 2, sized 20)])) \<le> 1
   \<and> observed (last [(Created, 1, sized 10), (Modified, 2, sized 20)])
        = observed (Modified, 3, sized 20)"
  using size_stability_state_machine[of fresh_monitor 1 "[''x.txt'']" "(Modified, 3, sized 20)"
      "[(Created, 1, sized 10), (Modified, 2, sized 20)]"]
  by (simp add: fresh_monitor_def sized_def observed_def triggers_def handle_file_created_def
        handle_file_modified_def ready_created_def ready_modified_def Let_def)

section \<open>Theorems: scheduler\<close>






lemma enqueue_fields [simp]:
  "active_tasks (enqueue_sync_task s c t) = active_tasks s"
  "worker (enqueue_sync_task s c t) = worker s"
  "max_concurrent_tasks (enqueue_sync_task s c t) = max_concurrent_tasks s"
  "db (enqueue_sync_task s c t) = db s"
  by (simp_all add: enqueue_sync_task_def)

lemma enqueue_queue:
  "task_queue (enqueue_sync_task s c t) =
     (if c \<notin> fst ` set (active_tasks s) \<and> length (active_tasks s) < max_concurrent_tasks s
      then task_queue s @ [\<lparr>task_type = ''sync'', task_config_id = c, task_timestamp = t\<rparr>]
      else task_queue s)"
  by (auto simp: enqueue_sync_task_def)

lemma run_sync_now_fields [simp]:
  "active_tasks (fst (run_sync_now s c t)) = active_tasks s"
  "worker (fst (run_sync_now s c t)) = worker s"
  "max_concurrent_tasks (fst (run_sync_now s c t)) = max_concurrent_tasks s"
  "db (fst (run_sync_now s c t)) = db s"
  by (simp_all add: run_sync_now_def)

lemma run_sync_now_queue:
  "task_queue (fst (run_sync_now s c t)) \<noteq> task_queue s \<Longrightarrow>
     length (active_tasks s) < max_concurrent_tasks s"
  by (auto simp: run_sync_now_def split: if_splits)


lemma sweep_fields [simp]:
  "worker (check_task_timeouts s now) = worker s"
  "max_concurrent_tasks (check_task_timeouts s now) = max_concurrent_tasks s"
  "task_queue (check_task_timeouts s now) = task_queue s"
  by (simp_all add: check_task_timeouts_def Let_def)

lemma sweep_active_nil:
  "active_tasks s = [] \<Longrightarrow> active_tasks (check_task_timeouts s now) = []"
  by (simp add: check_task_timeouts_def Let_def)

lemma sweep_active_single:
  "active_tasks s = [(c, i)] \<Longrightarrow>
     active_tasks (check_task_timeouts s now) = [] \<or>
     active_tasks (check_task_timeouts s now) = [(c, i)]"
  by (simp add: check_task_timeouts_def Let_def AList.delete_eq)

lemma begin_fields [simp]:
  "max_concurrent_tasks (handle_sync_task_begin s c ts now) = max_concurrent_tasks s"
  "task_queue (handle_sync_task_begin s c ts now) = task_queue s"
  by (simp_all add: handle_sync_task_begin_def split: option.splits prod.splits)

lemma begin_cases:
  "(worker (handle_sync_task_begin s c ts now) = worker s \<and>
    active_tasks (handle_sync_task_begin s c ts now) = active_tasks s) \<or>
   ((\<exists>h. worker (handle_sync_task_begin s c ts now) = Some (c, ts, h)) \<and>
    active_tasks (handle_sync_task_begin s c ts now) =
      AList.update c \<lparr>start_time = now, ti_status = ''running''\<rparr> (active_tasks s))"
  by (auto simp: handle_sync_task_begin_def split: option.splits prod.splits)

lemma end_fields [simp]:
  "max_concurrent_tasks (handle_sync_task_end s r now) = max_concurrent_tasks s"
  "task_queue (handle_sync_task_end s r now) = task_queue s"
  by (simp_all add: handle_sync_task_end_def Let_def split: option.splits prod.splits)

lemma end_worker:
  "worker s = Some (c, ts, h) \<Longrightarrow>
     worker (handle_sync_task_end s r now) = None \<and>
     active_tasks (handle_sync_task_end s r now) = AList.delete c (active_tasks s)"
  by (simp add: handle_sync_task_end_def Let_def split: option.splits prod.splits)

lemma sched_inv_step:
  assumes "sched_inv (sys_scheduler y)"
  shows "sched_inv (sys_scheduler (step y e))"
proof (cases e)
  case (Tick c now)
  with assms show ?thesis
    by (auto simp: sched_inv_def enqueue_queue split: option.splits)
next
  case (RunNow c now)
  with assms run_sync_now_queue[of "sys_scheduler y" c now] show ?thesis
    by (fastforce simp: sched_inv_def split: option.splits)
next
  case (WorkerTake now)
  have eq: "sys_scheduler (step y e) = worker_take (sys_scheduler y) now"
    using WorkerTake by (simp add: Let_def split: option.splits prod.splits)
  show ?thesis
  proof (cases "worker (sys_scheduler y)")
    case (Some w)
    with assms show ?thesis unfolding eq by (simp add: worker_take_def)
  next
    case None
    show ?thesis
    proof (cases "task_queue (sys_scheduler y)")
      case Nil
      with assms None show ?thesis unfolding eq by (simp add: worker_take_def)
    next
      case (Cons t q)
      let ?s = "(sys_scheduler y)\<lparr>task_queue := q\<rparr>"
      have K: "max_concurrent_tasks (sys_scheduler y) \<noteq> 0"
        using assms Cons by (auto simp: sched_inv_def)
      have a: "active_tasks (sys_scheduler y) = []"
        using assms None by (auto simp: sched_inv_def)
      show ?thesis
      proof (cases "task_type t = ''sync''")
        case False
        with None Cons K a show ?thesis unfolding eq
          by (auto simp: sched_inv_def worker_take_def)
      next
        case True
        from begin_cases[of ?s "task_config_id t" "task_timestamp t" now]
        show ?thesis unfolding eq
          using None Cons K a True
          by (auto simp: sched_inv_def worker_take_def split: option.splits)
      qed
    qed
  qed
next
  case (WorkerDone r now)
  show ?thesis
  proof (cases "worker (sys_scheduler y)")
    case None
    with assms WorkerDone show ?thesis by simp
  next
    case (Some w)
    obtain c ts h where w: "w = (c, ts, h)" by (cases w)
    from end_worker[of "sys_scheduler y" c ts h r now] Some w assms WorkerDone
    show ?thesis
      by (auto simp: sched_inv_def AList.delete_eq)
  qed
next
  case (Sweep now)
  show ?thesis
  proof (cases "worker (sys_scheduler y)")
    case None
    with assms Sweep show ?thesis
      by (auto simp: sched_inv_def sweep_active_nil)
  next
    case (Some w)
    obtain c ts h where w: "w = (c, ts, h)" by (cases w)
    from Some w assms have "active_tasks (sys_scheduler y) = [] \<or>
        (\<exists>i. active_tasks (sys_scheduler y) = [(c, i)])"
      by (auto simp: sched_inv_def)
    then have "active_tasks (check_task_timeouts (sys_scheduler y) now) = [] \<or>
        (\<exists>i. active_tasks (check_task_timeouts (sys_scheduler y) now) = [(c, i)])"
      using sweep_active_nil sweep_active_single by blast
    with Some w assms Sweep show ?thesis
      by (auto simp: sched_inv_def)
  qed
next
  case (TriggerSync c)
  with assms show ?thesis by simp
next
  case (TriggerReturns c)
  with assms show ?thesis by simp
qed

lemma step_capacity [simp]:
  "max_concurrent_tasks (sys_scheduler (step y e)) = max_concurrent_tasks (sys_scheduler y)"
  by (cases e)
     (auto simp: Let_def worker_take_def split: option.splits prod.splits list.splits)

lemma sched_inv_steps:
  "sched_inv (sys_scheduler y) \<Longrightarrow> sched_inv (sys_scheduler (steps y evs))"
  unfolding steps_def
  by (induction evs arbitrary: y) (simp_all add: sched_inv_step)

lemma steps_capacity [simp]:
  "max_concurrent_tasks (sys_scheduler (steps y evs)) = max_concurrent_tasks (sys_scheduler y)"
  unfolding steps_def
  by (induction evs arbitrary: y) simp_all

lemma sched_inv_bound:
  "sched_inv s \<Longrightarrow> length (active_tasks s) \<le> max_concurrent_tasks s"
  by (cases "worker s") (auto simp: sched_inv_def)

lemma sched_inv_distinct:
  "sched_inv s \<Longrightarrow> distinct (map fst (active_tasks s))"
  by (cases "worker s") (auto simp: sched_inv_def)

lemma sched_inv_start: "sched_inv (sys_scheduler (start_system K d))"
  by (simp add: sched_inv_def start_system_def init_scheduler_def)

lemma runs_inv_step:
  assumes "runs_inv y" and "\<forall>c. e \<noteq> TriggerSync c"
  shows "runs_inv (step y e)"
proof (cases e)
  case (WorkerTake now)
  with assms show ?thesis
    by (auto simp: runs_inv_def Let_def worker_take_def split: option.splits prod.splits)
next
  case (WorkerDone r now)
  show ?thesis
  proof (cases "worker (sys_scheduler y)")
    case None
    with assms WorkerDone show ?thesis by simp
  next
    case (Some w)
    obtain c ts h where w: "w = (c, ts, h)" by (cases w)
    from end_worker[of "sys_scheduler y" c ts h r now] Some w assms(1) WorkerDone
    show ?thesis
      by (auto simp: runs_inv_def)
  qed
qed (use assms in \<open>auto simp: runs_inv_def split: option.splits if_splits\<close>)

lemma runs_inv_steps:
  "runs_inv y \<Longrightarrow> \<forall>c. TriggerSync c \<notin> set evs \<Longrightarrow> runs_inv (steps y evs)"
  unfolding steps_def
proof (induction evs arbitrary: y)
  case Nil
  then show ?case by simp
next
  case (Cons e evs)
  then have "runs_inv (step y e)" by (intro runs_inv_step) auto
  with Cons show ?case by simp
qed

lemma runs_inv_count: "runs_inv y \<Longrightarrow> count_list (in_progress y) c \<le> 1"
  by (cases "worker (sys_scheduler y)") (auto simp: runs_inv_def)

text \<open>
  C5. From a started scheduler with capacity \<open>K\<close>, after any sequence of ticks, manual
  requests, worker rounds, timeout sweeps and direct triggers, the active set holds at
  most \<open>K\<close> tasks. With the active set at capacity, \<open>_enqueue_sync_task\<close> and
  \<open>run_sync_now\<close> put nothing in the queue and write one log entry; \<open>run_sync_now\<close>
  returns \<open>False\<close>.
\<close>

theorem global_concurrency_bound:
  "length (active_tasks (sys_scheduler (steps (start_system K d) evs))) \<le> K
   \<and> (max_concurrent_tasks s \<le> length (active_tasks s) \<longrightarrow>
        task_queue (enqueue_sync_task s c now) = task_queue s
      \<and> log (enqueue_sync_task s c now) =
          log s @ [if c \<in> fst ` set (active_tasks s) then AlreadyRunning c
                   else CapacityReached (max_concurrent_tasks s)]
      \<and> task_queue (fst (run_sync_now s c now)) = task_queue s
      \<and> length (log (fst (run_sync_now s c now))) = Suc (length (log s))
      \<and> \<not> snd (run_sync_now s c now))"
proof (intro conjI impI)
  have "sched_inv (sys_scheduler (steps (start_system K d) evs))"
    by (rule sched_inv_steps) (rule sched_inv_start)
  then have "length (active_tasks (sys_scheduler (steps (start_system K d) evs)))
      \<le> max_concurrent_tasks (sys_scheduler (steps (start_system K d) evs))"
    by (rule sched_inv_bound)
  then show "length (active_tasks (sys_scheduler (steps (start_system K d) evs))) \<le> K"
    by (simp add: start_system_def)
next
  assume full: "max_concurrent_tasks s \<le> length (active_tasks s)"
  then show "task_queue (enqueue_sync_task s c now) = task_queue s"
    by (simp add: enqueue_queue)
  from full show "log (enqueue_sync_task s c now) =
          log s @ [if c \<in> fst ` set (active_tasks s) then AlreadyRunning c
                   else CapacityReached (max_concurrent_tasks s)]"
    by (simp add: enqueue_sync_task_def)
  from full show "task_queue (fst (run_sync_now s c now)) = task_queue s"
    by (simp add: run_sync_now_def)
  from full show "length (log (fst (run_sync_now s c now))) = Suc (length (log s))"
    by (simp add: run_sync_now_def)
  from full show "\<not> snd (run_sync_now s c now)"
    by (simp add: run_sync_now_def)
qed



theorem global_concurrency_bound_witness:
  "max_concurrent_tasks busy_scheduler \<le> length (active_tasks busy_scheduler)
   \<and> length (active_tasks (sys_scheduler (steps (start_system 3 four_configs)
        [Tick 1 0, Tick 2 0, Tick 3 0, Tick 4 0, WorkerTake 1]))) \<le> 3
   \<and> task_queue (enqueue_sync_task busy_scheduler 4 5) = []
   \<and> log (enqueue_sync_task busy_scheduler 4 5) = [CapacityReached 3]
   \<and> task_queue (fst (run_sync_now busy_scheduler 4 5)) = []
   \<and> \<not> snd (run_sync_now busy_scheduler 4 5)"
  using global_concurrency_bound[of 3 four_configs
      "[Tick 1 0, Tick 2 0, Tick 3 0, Tick 4 0, WorkerTake 1]" busy_scheduler 4 5]
  by (simp add: busy_scheduler_def init_scheduler_def)

text \<open>
  C2, as amended. For the scheduler's own triggers exclusion holds: a tick or a
  \<open>run_sync_now\<close> for a configuration with an active task changes nothing but the log
  (it is not queued and starts no run), the active set holds at most one task per
  configuration, and while no trigger goes through \<open>Orchestrator.trigger_sync\<close> at most
  one run per configuration is under way.
\<close>

theorem scheduler_exclusion:
  "(c \<in> fst ` set (active_tasks s) \<longrightarrow>
       enqueue_sync_task s c now = s\<lparr>log := log s @ [AlreadyRunning c]\<rparr>
     \<and> task_queue (fst (run_sync_now s c now)) = task_queue s
     \<and> active_tasks (fst (run_sync_now s c now)) = active_tasks s
     \<and> \<not> snd (run_sync_now s c now))
   \<and> distinct (map fst (active_tasks (sys_scheduler (steps (start_system K d) evs))))
   \<and> (filter direct_trigger evs = [] \<longrightarrow>
        count_list (in_progress (steps (start_system K d) evs)) c \<le> 1)"
proof (intro conjI impI)
  assume act: "c \<in> fst ` set (active_tasks s)"
  then show "enqueue_sync_task s c now = s\<lparr>log := log s @ [AlreadyRunning c]\<rparr>"
    by (simp add: enqueue_sync_task_def)
  from act show "task_queue (fst (run_sync_now s c now)) = task_queue s"
    by (simp add: run_sync_now_def)
  show "active_tasks (fst (run_sync_now s c now)) = active_tasks s" by simp
  from act show "\<not> snd (run_sync_now s c now)"
    by (simp add: run_sync_now_def)
next
  have "sched_inv (sys_scheduler (steps (start_system K d) evs))"
    by (rule sched_inv_steps) (rule sched_inv_start)
  then show "distinct (map fst (active_tasks (sys_scheduler (steps (start_system K d) evs))))"
    by (rule sched_inv_distinct)
next
  assume "filter direct_trigger evs = []"
  then have "\<forall>c. TriggerSync c \<notin> set evs"
    by (auto simp: filter_empty_conv)
  moreover have "runs_inv (start_system K d)"
    by (simp add: runs_inv_def start_system_def init_scheduler_def)
  ultimately have "runs_inv (steps (start_system K d) evs)"
    by (intro runs_inv_steps)
  then show "count_list (in_progress (steps (start_system K d) evs)) c \<le> 1"
    by (rule runs_inv_count)
qed

theorem scheduler_exclusion_witness:
  "1 \<in> fst ` set (active_tasks busy_scheduler)
   \<and> filter direct_trigger [Tick 1 0, WorkerTake 1, Tick 1 2, RunNow 1 3] = []
   \<and> enqueue_sync_task busy_scheduler 1 5 = busy_scheduler\<lparr>log := [AlreadyRunning 1]\<rparr>
   \<and> \<not> snd (run_sync_now busy_scheduler 1 5)
   \<and> count_list (in_progress (steps (start_system 3 four_configs)
         [Tick 1 0, WorkerTake 1, Tick 1 2, RunNow 1 3])) 1 \<le> 1"
  using scheduler_exclusion[of 1 busy_scheduler 5 3 four_configs
      "[Tick 1 0, WorkerTake 1, Tick 1 2, RunNow 1 3]"]
  by (simp add: busy_scheduler_def init_scheduler_def)

text \<open>
  C2 as stated fails: configuration 1 has an active task started by the worker, a trigger
  through \<open>Orchestrator.trigger_sync\<close> arrives, and a second run of configuration 1 is
  under way.
\<close>

theorem exclusion_counterexample:
  "1 \<in> fst ` set (active_tasks (sys_scheduler
        (steps (start_system 3 four_configs) [Tick 1 0, WorkerTake 1])))
   \<and> in_progress (steps (start_system 3 four_configs) [Tick 1 0, WorkerTake 1]) = [1]
   \<and> in_progress (steps (start_system 3 four_configs)
        [Tick 1 0, WorkerTake 1, TriggerSync 1]) = [1, 1]
   \<and> \<not> count_list (in_progress (steps (start_system 3 four_configs)
        [Tick 1 0, WorkerTake 1, TriggerSync 1])) 1 \<le> 1"
  by (simp add: steps_def start_system_def init_scheduler_def four_configs_def
        enqueue_sync_task_def worker_take_def handle_sync_task_begin_def get_sync_config_def
        add_sync_history_def Let_def)

text \<open>
  Reading a value: two decimal digits are read by \<open>int\<close> as their number, and
  \<open>HH:MM\<close> splits at its colon into the two fields.
\<close>

lemma digit_char:
  assumes "k < 10"
  shows "of_char (char_of (48 + k) :: char) = (48 + k :: nat)"
    and "is_digit (char_of (48 + k))" and "\<not> is_space (char_of (48 + k))"
    and "char_of (48 + k) \<noteq> CHR '':''" and "char_of (48 + k) \<noteq> CHR ''-''"
    and "char_of (48 + k) \<noteq> CHR ''+''" and "char_of (48 + k) \<noteq> CHR ''_''"
proof -
  show a: "of_char (char_of (48 + k) :: char) = (48 + k :: nat)"
    using assms by (simp add: of_char_of)
  show "is_digit (char_of (48 + k))" "\<not> is_space (char_of (48 + k))"
    using assms by (simp_all add: is_digit_def is_space_def a)
  have "of_char (char_of (48 + k) :: char) \<noteq> (of_char CHR '':'' :: nat)"
     "of_char (char_of (48 + k) :: char) \<noteq> (of_char CHR ''-'' :: nat)"
     "of_char (char_of (48 + k) :: char) \<noteq> (of_char CHR ''+'' :: nat)"
     "of_char (char_of (48 + k) :: char) \<noteq> (of_char CHR ''_'' :: nat)"
    unfolding a using assms by simp_all
  then show "char_of (48 + k) \<noteq> CHR '':''" "char_of (48 + k) \<noteq> CHR ''-''"
    "char_of (48 + k) \<noteq> CHR ''+''" "char_of (48 + k) \<noteq> CHR ''_''"
    by metis+
qed

lemma py_int_two_digits:
  assumes "n < 100"
  shows "py_int (two_digits n) = Some (int n)"
proof -
  have d: "n div 10 < 10" "n mod 10 < 10" using assms by simp_all
  note a = digit_char[OF d(1)] and b = digit_char[OF d(2)]
  have i: "(of_char c :: int) = int (of_char c)" for c
    by (simp only: of_nat_of_char)
  have "10 * (n div 10) + n mod 10 = n" by simp
  then have "10 * int (n div 10) + int (n mod 10) = int n"
    by (metis of_nat_add of_nat_mult of_nat_numeral)
  moreover have "(48 + n div 10) mod 256 = 48 + n div 10" "(48 + n mod 10) mod 256 = 48 + n mod 10"
    using d by simp_all
  ultimately have v: "digits_value (two_digits n) = int n"
    using a(2) b(2) by (simp add: digits_value_def two_digits_def i)
  have s: "strip (two_digits n) = two_digits n"
    using a(3) b(3) by (simp add: strip_def two_digits_def)
  show ?thesis
    unfolding py_int_def s Let_def using a b v
    by (simp add: two_digits_def)
qed

lemma split_hh_mm:
  assumes "h < 100" "mi < 100"
  shows "split_on CHR '':'' (hh_mm h mi) = [two_digits h, two_digits mi]"
proof -
  have d: "h div 10 < 10" "h mod 10 < 10" "mi div 10 < 10" "mi mod 10 < 10" using assms by simp_all
  show ?thesis
    using digit_char(4)[OF d(1)] digit_char(4)[OF d(2)] digit_char(4)[OF d(3)] digit_char(4)[OF d(4)]
    by (simp add: hh_mm_def two_digits_def)
qed

lemma parse_hh_mm:
  assumes "h < 100" "mi < 100"
  shows "parse_hour_minute (hh_mm h mi) = Some (int h, int mi)"
  unfolding parse_hour_minute_def split_hh_mm[OF assms]
  by (simp add: py_int_two_digits assms)


lemma custom_check_parsed:
  assumes "parse_hour_minute v = Some (h, mi)"
  shows "run_job s (CheckCustom c v) now =
           (if dt_hour now = h \<and> dt_minute now = mi
            then enqueue_sync_task s c (dt_stamp now) else s)"
  using assms by (simp add: check_custom_sync_def)

lemma custom_check_unreadable:
  assumes "parse_hour_minute v = None"
  shows "run_job s (CheckCustom c v) now = s\<lparr>log := log s @ [BadCustomSchedule]\<rparr>"
  using assms by (simp add: check_custom_sync_def)

text \<open>
  C8. A custom schedule with the value \<open>HH:MM\<close> (hour below 24, minute below 60) is read
  by \<open>_check_custom_sync\<close> as that hour and that minute. The job is a daily one
  (registered at 00:00) that runs \<open>_check_custom_sync\<close>; an evaluation calls
  \<open>_enqueue_sync_task\<close> exactly when the current hour is \<open>HH\<close> and the current minute
  is \<open>MM\<close>, and otherwise leaves the scheduler as it was, so nothing remembers a missed
  minute. With the configuration idle and capacity free, the task is put in the queue
  exactly in that minute.
\<close>

theorem custom_schedule_semantics:
  assumes "h < 24" and "mi < 60"
  shows "parse_hour_minute (hh_mm h mi) = Some (int h, int mi)
       \<and> make_job c ''custom'' (hh_mm h mi) =
           Some \<lparr>every = 1, unit = ''day'', at_time = Some ''00:00'',
                 job_action = CheckCustom c (hh_mm h mi)\<rparr>
       \<and> run_job s (CheckCustom c (hh_mm h mi)) now =
           (if dt_hour now = int h \<and> dt_minute now = int mi
            then enqueue_sync_task s c (dt_stamp now) else s)
       \<and> (c \<notin> fst ` set (active_tasks s) \<and> length (active_tasks s) < max_concurrent_tasks s \<longrightarrow>
            (task_queue (run_job s (CheckCustom c (hh_mm h mi)) now) =
               task_queue s @ [\<lparr>task_type = ''sync'', task_config_id = c,
                                 task_timestamp = dt_stamp now\<rparr>]
             \<longleftrightarrow> dt_hour now = int h \<and> dt_minute now = int mi))"
proof -
  have p: "parse_hour_minute (hh_mm h mi) = Some (int h, int mi)"
    using assms by (intro parse_hh_mm) simp_all
  show ?thesis
    unfolding custom_check_parsed[OF p] using p
    by (auto simp: make_job_def enqueue_queue)
qed

theorem custom_schedule_semantics_witness:
  "(9::nat) < 24 \<and> (5::nat) < 60 \<and> hh_mm 9 5 = ''09:05''
   \<and> parse_hour_minute ''09:05'' = Some (9, 5)
   \<and> 4 \<notin> fst ` set (active_tasks (init_scheduler four_configs))
   \<and> length (active_tasks (init_scheduler four_configs))
        < max_concurrent_tasks (init_scheduler four_configs)
   \<and> task_queue (run_job (init_scheduler four_configs) (CheckCustom 4 ''09:05'')
        \<lparr>dt_day = 1, dt_hour = 9, dt_minute = 5, dt_stamp = 77\<rparr>)
        = [\<lparr>task_type = ''sync'', task_config_id = 4, task_timestamp = 77\<rparr>]
   \<and> run_job (init_scheduler four_configs) (CheckCustom 4 ''09:05'')
        \<lparr>dt_day = 1, dt_hour = 0, dt_minute = 0, dt_stamp = 78\<rparr> = init_scheduler four_configs"
proof -
  have v: "hh_mm 9 5 = ''09:05''"
    by code_simp
  show ?thesis
    using custom_schedule_semantics[of 9 5 4 "init_scheduler four_configs"
        "\<lparr>dt_day = 1, dt_hour = 9, dt_minute = 5, dt_stamp = 77\<rparr>"]
      custom_schedule_semantics[of 9 5 4 "init_scheduler four_configs"
        "\<lparr>dt_day = 1, dt_hour = 0, dt_minute = 0, dt_stamp = 78\<rparr>"]
    unfolding v
    by (simp add: init_scheduler_def enqueue_sync_task_def)
qed

section \<open>Theorems: file states after a run\<close>

lemma state_paths_update [simp]:
  "state_paths (update_file_state rows cid p h mt st) cid = insert p (state_paths rows cid)"
  by (auto simp: state_paths_def update_file_state_def get_file_states_def)

lemma state_paths_delete [simp]:
  "state_paths (delete_file_state rows cid p) cid = state_paths rows cid - {p}"
  by (auto simp: state_paths_def delete_file_state_def get_file_states_def)

lemma upsert_fold_paths:
  assumes "set ps \<subseteq> fst ` set tree"
  shows "state_paths (file_states (edb (foldl (\<lambda>e rel_path.
            update_file_state_in_db tree e cid rel_path st) e ps))) cid
         = state_paths (file_states (edb e)) cid \<union> set ps"
  using assms
proof (induction ps arbitrary: e)
  case Nil
  then show ?case by simp
next
  case (Cons p ps)
  from Cons.prems obtain f where f: "map_of tree p = Some f"
    by (cases "map_of tree p") (auto simp: map_of_eq_None_iff)
  have "state_paths (file_states (edb (update_file_state_in_db tree e cid p st))) cid
          = insert p (state_paths (file_states (edb e)) cid)"
    by (simp add: update_file_state_in_db_def f)
  with Cons show ?case by auto
qed

lemma upsert_fold_synced:
  assumes "set ps \<subseteq> fst ` set tree"
    and "\<forall>r \<in> set (get_file_states (file_states (edb e)) cid).
           file_path r \<in> A \<longrightarrow> sync_status r = ''synced''"
  shows "\<forall>r \<in> set (get_file_states (file_states (edb (foldl (\<lambda>e rel_path.
            update_file_state_in_db tree e cid rel_path ''synced'') e ps))) cid).
           file_path r \<in> A \<union> set ps \<longrightarrow> sync_status r = ''synced''"
  using assms
proof (induction ps arbitrary: e A)
  case Nil
  then show ?case by simp
next
  case (Cons p ps)
  from Cons.prems obtain f where f: "map_of tree p = Some f"
    by (cases "map_of tree p") (auto simp: map_of_eq_None_iff)
  let ?e = "update_file_state_in_db tree e cid p ''synced''"
  have step: "\<forall>r \<in> set (get_file_states (file_states (edb ?e)) cid).
           file_path r \<in> insert p A \<longrightarrow> sync_status r = ''synced''"
    using Cons.prems(2)
    by (auto simp: update_file_state_in_db_def f update_file_state_def get_file_states_def)
  have "\<forall>r \<in> set (get_file_states (file_states (edb (foldl (\<lambda>e rel_path.
            update_file_state_in_db tree e cid rel_path ''synced'') ?e ps))) cid).
           file_path r \<in> insert p A \<union> set ps \<longrightarrow> sync_status r = ''synced''"
    using Cons.prems(1) step by (intro Cons.IH) auto
  then show ?case by simp
qed

lemma prune_fold_states:
  "file_states (edb (foldl (\<lambda>e state.
        if file_path state \<notin> S
        then e\<lparr>edb := (edb e)\<lparr>file_states :=
                 delete_file_state (file_states (edb e)) cid (file_path state)\<rparr>,
               effects := effects e @ [StateDelete (file_path state)]\<rparr>
        else e) e rs))
   = filter (\<lambda>r. \<not> (fs_config_id r = cid \<and> file_path r \<in> file_path ` set rs - S))
       (file_states (edb e))"
proof (induction rs arbitrary: e)
  case Nil
  then show ?case by simp
next
  case (Cons x rs)
  show ?case
    by (auto simp: Cons delete_file_state_def intro!: filter_cong)
qed

lemma get_files_list_keys:
  "set (get_files_list src) \<subseteq> fst ` set (case src of None \<Rightarrow> [] | Some t \<Rightarrow> t)"
  by (cases src) auto

lemma update_file_states_rows:
  "state_paths (file_states (edb (update_file_states src e cid))) cid = set (get_files_list src)
   \<and> (\<forall>r \<in> set (get_file_states (file_states (edb (update_file_states src e cid))) cid).
        sync_status r = ''synced'')"
proof -
  let ?tree = "case src of None \<Rightarrow> [] | Some t \<Rightarrow> t"
  let ?S = "get_files_list src"
  let ?e1 = "foldl (\<lambda>e rel_path. update_file_state_in_db ?tree e cid rel_path ''synced'') e ?S"
  let ?rows = "get_file_states (file_states (edb ?e1)) cid"
  have fs: "file_states (edb (update_file_states src e cid))
      = filter (\<lambda>r. \<not> (fs_config_id r = cid \<and> file_path r \<in> file_path ` set ?rows - set ?S))
          (file_states (edb ?e1))"
    unfolding update_file_states_def Let_def by (rule prune_fold_states)
  have paths: "state_paths (file_states (edb ?e1)) cid = state_paths (file_states (edb e)) cid \<union> set ?S"
    by (rule upsert_fold_paths) (rule get_files_list_keys)
  have synced: "\<forall>r \<in> set ?rows. file_path r \<in> {} \<union> set ?S \<longrightarrow> sync_status r = ''synced''"
    by (rule upsert_fold_synced) (use get_files_list_keys in auto)
  have rows: "set (get_file_states (file_states (edb (update_file_states src e cid))) cid)
      = {r \<in> set ?rows. file_path r \<in> set ?S}"
    unfolding fs by (auto simp: get_file_states_def)
  have "state_paths (file_states (edb (update_file_states src e cid))) cid = set ?S"
    unfolding state_paths_def rows using paths by (auto simp: state_paths_def)
  moreover have "\<forall>r \<in> set (get_file_states (file_states (edb (update_file_states src e cid))) cid).
        sync_status r = ''synced''"
    unfolding rows using synced by auto
  ultimately show ?thesis by simp
qed

lemma file_states_update_sync_history [simp]:
  "file_states (update_sync_history d h u) = file_states d"
  by (simp add: update_sync_history_def)

lemma file_states_service_finish [simp]:
  "file_states (service_finish d h r now) = file_states d"
  by (simp add: service_finish_def Let_def split: option.splits)

text \<open>
  C10. For a local configuration with a target path, after \<open>SyncService.sync_config\<close>
  the paths with a row in \<open>file_states\<close> under the configuration are exactly the files
  that \<open>_get_files_list\<close> lists in the source (the non-hidden ones), whatever the engine
  copied, skipped or failed to copy, and every such row has status \<open>synced\<close>.
\<close>

theorem file_states_follow_source:
  assumes "get_sync_config d cid = Some cfg"
    and "target_type cfg = ''local''" and "target_path cfg \<noteq> []"
  shows "state_paths (file_states (fst (snd (snd (sync_config remote fl w d cid now))))) cid
           = set (get_files_list (source w))
       \<and> list_all (\<lambda>r. sync_status r = ''synced'')
           (get_file_states (file_states (fst (snd (snd (sync_config remote fl w d cid now))))) cid)"
  using assms update_file_states_rows
  by (simp add: sync_config_def Let_def list_all_iff split: prod.splits)

theorem file_states_follow_source_witness:
  "get_sync_config stale_db 1 = Some local_config
   \<and> target_type local_config = ''local'' \<and> target_path local_config \<noteq> []
   \<and> state_paths (file_states stale_db) 1 = {[''old.txt'']}
   \<and> state_paths (file_states (fst (snd (snd
         (sync_config no_remote no_faults settled_world stale_db 1 5))))) 1 = {[''x.txt'']}
   \<and> list_all (\<lambda>r. sync_status r = ''synced'')
         (get_file_states (file_states (fst (snd (snd
            (sync_config no_remote no_faults settled_world stale_db 1 5))))) 1)"
proof -
  have c: "get_sync_config stale_db 1 = Some local_config"
    by (simp add: get_sync_config_def stale_db_def one_config_def)
  have t: "target_type local_config = ''local''" "target_path local_config \<noteq> []"
    by (simp_all add: local_config_def)
  have l: "set (get_files_list (source settled_world)) = {[''x.txt'']}"
    by (simp add: settled_world_def hidden_def)
  have o: "state_paths (file_states stale_db) 1 = {[''old.txt'']}"
    by (simp add: state_paths_def get_file_states_def stale_db_def one_config_def)
  show ?thesis
    using file_states_follow_source[OF c t, of no_remote no_faults settled_world 5] c t l o
    by simp
qed

section \<open>Theorems: projections of the engine and history of a run\<close>

lemma count_error_fields [simp]:
  "edb (count_error e) = edb e" "dst (count_error e) = dst e"
  "effects (count_error e) = effects e"
  "errors (stats (count_error e)) = Suc (errors (stats e))"
  "copied (stats (count_error e)) = copied (stats e)"
  "updated (stats (count_error e)) = updated (stats e)"
  "skipped (stats (count_error e)) = skipped (stats e)"
  "deleted (stats (count_error e)) = deleted (stats e)"
  by (simp_all add: count_error_def)

lemma log_operation_fields [simp]:
  "dst (log_operation e sid op p n) = dst e"
  "stats (log_operation e sid op p n) = stats e"
  "effects (log_operation e sid op p n) = effects e"
  "file_states (edb (log_operation e sid op p n)) = file_states (edb e)"
  "sync_history (edb (log_operation e sid op p n)) = sync_history (edb e)"
  "last_history_id (edb (log_operation e sid op p n)) = last_history_id (edb e)"
  "configs (edb (log_operation e sid op p n)) = configs (edb e)"
  by (simp_all add: log_operation_def)

lemma update_file_state_in_db_fields [simp]:
  "dst (update_file_state_in_db src e cid p st) = dst e"
  "stats (update_file_state_in_db src e cid p st) = stats e"
  "sync_history (edb (update_file_state_in_db src e cid p st)) = sync_history (edb e)"
  "last_history_id (edb (update_file_state_in_db src e cid p st)) = last_history_id (edb e)"
  "configs (edb (update_file_state_in_db src e cid p st)) = configs (edb e)"
  "file_operations (edb (update_file_state_in_db src e cid p st)) = file_operations (edb e)"
  by (simp_all add: update_file_state_in_db_def split: option.splits)

lemma copy_file_fields [simp]:
  "edb (fst (copy_file fl src e p)) = edb e"
  "copied (stats (fst (copy_file fl src e p))) = copied (stats e)"
  "updated (stats (fst (copy_file fl src e p))) = updated (stats e)"
  "skipped (stats (fst (copy_file fl src e p))) = skipped (stats e)"
  "deleted (stats (fst (copy_file fl src e p))) = deleted (stats e)"
  by (simp_all add: copy_file_def Let_def split: option.splits)

lemma copy_file_errors:
  "errors (stats (fst (copy_file fl src e p))) =
     (if snd (copy_file fl src e p) then errors (stats e) else Suc (errors (stats e)))"
  by (simp add: copy_file_def Let_def split: option.splits)

lemma copy_file_effects:
  "effects (fst (copy_file fl src e p)) = effects e @ [Put p (snd (copy_file fl src e p))]"
  by (simp add: copy_file_def Let_def split: option.splits)

lemma delete_file_fields [simp]:
  "edb (fst (delete_file fl e p)) = edb e"
  "copied (stats (fst (delete_file fl e p))) = copied (stats e)"
  "updated (stats (fst (delete_file fl e p))) = updated (stats e)"
  "skipped (stats (fst (delete_file fl e p))) = skipped (stats e)"
  "deleted (stats (fst (delete_file fl e p))) = deleted (stats e)"
  by (simp_all add: delete_file_def split: option.splits)

lemma sync_source_file_history [simp]:
  "sync_history (edb (sync_source_file fl src tf cid sid e p)) = sync_history (edb e)"
  "last_history_id (edb (sync_source_file fl src tf cid sid e p)) = last_history_id (edb e)"
  "configs (edb (sync_source_file fl src tf cid sid e p)) = configs (edb e)"
  by (simp_all add: sync_source_file_def Let_def split: prod.splits)
     (metis copy_file_fields(1) fst_conv)+

lemma delete_target_file_history [simp]:
  "sync_history (edb (delete_target_file fl sf sy cid sid e p)) = sync_history (edb e)"
  "last_history_id (edb (delete_target_file fl sf sy cid sid e p)) = last_history_id (edb e)"
  "configs (edb (delete_target_file fl sf sy cid sid e p)) = configs (edb e)"
  by (simp_all add: delete_target_file_def Let_def split: prod.splits)
     (metis delete_file_fields(1) fst_conv)+

lemma copy_pass_history [simp]:
  "sync_history (edb (copy_pass fl src tf cid sid e ps)) = sync_history (edb e)"
  "last_history_id (edb (copy_pass fl src tf cid sid e ps)) = last_history_id (edb e)"
  "configs (edb (copy_pass fl src tf cid sid e ps)) = configs (edb e)"
  unfolding copy_pass_def by (induction ps arbitrary: e) simp_all

lemma delete_fold_history:
  "sync_history (edb (foldl (delete_target_file fl sf sy cid sid) e ps)) = sync_history (edb e)
   \<and> last_history_id (edb (foldl (delete_target_file fl sf sy cid sid) e ps)) = last_history_id (edb e)
   \<and> configs (edb (foldl (delete_target_file fl sf sy cid sid) e ps)) = configs (edb e)"
  by (induction ps arbitrary: e) simp_all

lemma delete_pass_history [simp]:
  "sync_history (edb (delete_pass fl sf tf cid sid e)) = sync_history (edb e)"
  "last_history_id (edb (delete_pass fl sf tf cid sid e)) = last_history_id (edb e)"
  "configs (edb (delete_pass fl sf tf cid sid e)) = configs (edb e)"
  unfolding delete_pass_def Let_def using delete_fold_history by simp_all

lemma upsert_fold_history:
  "sync_history (edb (foldl (\<lambda>e p. update_file_state_in_db t e cid p st) e ps)) = sync_history (edb e)
   \<and> last_history_id (edb (foldl (\<lambda>e p. update_file_state_in_db t e cid p st) e ps)) = last_history_id (edb e)
   \<and> configs (edb (foldl (\<lambda>e p. update_file_state_in_db t e cid p st) e ps)) = configs (edb e)"
  by (induction ps arbitrary: e) simp_all

lemma prune_fold_history:
  "sync_history (edb (foldl (\<lambda>e state.
        if file_path state \<notin> S
        then e\<lparr>edb := (edb e)\<lparr>file_states :=
                 delete_file_state (file_states (edb e)) cid (file_path state)\<rparr>,
               effects := effects e @ [StateDelete (file_path state)]\<rparr>
        else e) e rs)) = sync_history (edb e)
   \<and> last_history_id (edb (foldl (\<lambda>e state.
        if file_path state \<notin> S
        then e\<lparr>edb := (edb e)\<lparr>file_states :=
                 delete_file_state (file_states (edb e)) cid (file_path state)\<rparr>,
               effects := effects e @ [StateDelete (file_path state)]\<rparr>
        else e) e rs)) = last_history_id (edb e)"
  by (induction rs arbitrary: e) simp_all

lemma update_file_states_history [simp]:
  "sync_history (edb (update_file_states src e cid)) = sync_history (edb e)"
  "last_history_id (edb (update_file_states src e cid)) = last_history_id (edb e)"
  unfolding update_file_states_def Let_def
  by (simp_all add: prune_fold_history upsert_fold_history)

lemma map_old_rows:
  "list_all (\<lambda>r. h_id r \<le> n) rows \<Longrightarrow>
     map (\<lambda>r. if h_id r = Suc n then u r else r) rows = rows"
  by (induction rows) auto

lemma map_new_row:
  assumes "list_all (\<lambda>r. h_id r \<le> n) rows" and "h_id x = Suc n"
  shows "map (\<lambda>r. if h_id r = Suc n then u r else r) (rows @ [x]) = rows @ [u x]"
proof -
  have "map (\<lambda>r. if h_id r = Suc n then u r else r) rows = rows"
    using assms(1) by (induction rows) auto
  with assms(2) show ?thesis by simp
qed

lemma run_passes_history [simp]:
  "sync_history (edb (run_passes fl src tgt d cid dm sid)) = sync_history d"
  "last_history_id (edb (run_passes fl src tgt d cid dm sid)) = last_history_id d"
  "configs (edb (run_passes fl src tgt d cid dm sid)) = configs d"
  by (simp_all add: run_passes_def Let_def)

lemma finish_history_rows:
  "sync_history (finish_history D hid st now) =
     (if hid = 0 then sync_history D
      else map (\<lambda>r. if h_id r = hid
                then r\<lparr>h_status := (if errors st = 0 then ''success'' else ''error''),
                         h_message := Summary (copied st) (updated st) (deleted st) (skipped st) (errors st),
                         files_count := copied st + updated st + skipped st,
                         files_processed := copied st + updated st,
                         files_copied := copied st,
                         files_updated := updated st,
                         files_deleted := deleted st,
                         h_errors := errors st,
                         h_end_time := Some now\<rparr>
                else r) (sync_history D))"
  by (simp add: finish_history_def finish_row_def update_sync_history_def)

lemma sync_folders_history:
  assumes "hid \<noteq> 0"
  shows "\<exists>u. sync_history (out_db (sync_folders fl w d cid dm hid now)) =
               map (\<lambda>r. if h_id r = hid then u r else r) (sync_history d)
           \<and> (\<forall>r. h_id (u r) = h_id r \<and> h_config_id (u r) = h_config_id r
                  \<and> h_status (u r) \<notin> {''running'', ''in_progress''})"
proof (cases "source w")
  case None
  with assms show ?thesis
    by (intro exI[of _ "\<lambda>row. row\<lparr>h_status := ''error'', h_message := SourceMissing\<rparr>"])
       (simp add: sync_folders_def update_sync_history_def)
next
  case (Some src)
  show ?thesis
  proof (cases "target w = None \<and> target_mkdir_fails fl")
    case True
    with assms Some show ?thesis
      by (intro exI[of _ "\<lambda>row. row\<lparr>h_status := ''error'', h_message := TargetNotCreated\<rparr>"])
         (simp add: sync_folders_def update_sync_history_def)
  next
    case False
    define st where "st = stats (run_passes fl src (case target w of None \<Rightarrow> [] | Some t \<Rightarrow> t)
                                  d cid dm hid)"
    have "out_db (sync_folders fl w d cid dm hid now) =
            finish_history (edb (run_passes fl src (case target w of None \<Rightarrow> [] | Some t \<Rightarrow> t)
                                  d cid dm hid)) hid st now"
      using assms Some False unfolding st_def
      by (auto simp: sync_folders_def Let_def)
    then have "sync_history (out_db (sync_folders fl w d cid dm hid now)) =
        map (\<lambda>r. if h_id r = hid
                then r\<lparr>h_status := (if errors st = 0 then ''success'' else ''error''),
                         h_message := Summary (copied st) (updated st) (deleted st) (skipped st) (errors st),
                         files_count := copied st + updated st + skipped st,
                         files_processed := copied st + updated st,
                         files_copied := copied st,
                         files_updated := updated st,
                         files_deleted := deleted st,
                         h_errors := errors st,
                         h_end_time := Some now\<rparr>
                else r) (sync_history d)"
      using assms by (simp add: finish_history_rows)
    then show ?thesis
      by (intro exI[of _ "\<lambda>row. row\<lparr>h_status := (if errors st = 0 then ''success'' else ''error''),
                         h_message := Summary (copied st) (updated st) (deleted st) (skipped st) (errors st),
                         files_count := copied st + updated st + skipped st,
                         files_processed := copied st + updated st,
                         files_copied := copied st,
                         files_updated := updated st,
                         files_deleted := deleted st,
                         h_errors := errors st,
                         h_end_time := Some now\<rparr>"])
         simp
  qed
qed

lemma find_unique_id:
  assumes "distinct (map h_id rows)" and "find (\<lambda>r. h_id r = hid) rows = Some x"
    and "r \<in> set rows" and "h_id r = hid"
  shows "r = x"
proof -
  from assms(2) have "x \<in> set rows" "h_id x = hid"
    by (auto simp: find_Some_iff)
  with assms(1,3,4) show ?thesis
    by (metis distinct_map inj_onD)
qed

lemma service_finish_history:
  assumes "distinct (map h_id (sync_history d))"
  shows "\<exists>v. sync_history (service_finish d hid res now) =
               map (\<lambda>r. if h_id r = hid then v r else r) (sync_history d)
           \<and> (\<forall>r. h_id (v r) = h_id r \<and> h_config_id (v r) = h_config_id r
                  \<and> h_status (v r) \<notin> {''running'', ''in_progress''})"
proof -
  let ?upd = "\<lambda>row. row\<lparr>h_status := (if errors res = 0 then ''completed'' else ''failed''),
                  h_message := Summary (copied res) (updated res) (deleted res) (skipped res) (errors res),
                  h_end_time := Some now,
                  files_copied := copied res, files_updated := updated res,
                  files_deleted := deleted res, h_errors := errors res\<rparr>"
  let ?v = "\<lambda>r. if h_status r \<in> {''running'', ''in_progress''} then ?upd r else r"
  have "sync_history (service_finish d hid res now) =
          map (\<lambda>r. if h_id r = hid then ?v r else r) (sync_history d)"
  proof (cases "find (\<lambda>r. h_id r = hid) (sync_history d)")
    case None
    then have "\<forall>r \<in> set (sync_history d). h_id r \<noteq> hid"
      by (auto simp: find_None_iff)
    then have "map (\<lambda>r. if h_id r = hid then ?v r else r) (sync_history d) = sync_history d"
      by (induction "sync_history d") (auto simp: map_idI)
    with None show ?thesis
      by (simp add: service_finish_def get_sync_history_record_def Let_def)
  next
    case (Some x)
    have same: "\<And>r. r \<in> set (sync_history d) \<Longrightarrow> h_id r = hid \<Longrightarrow> r = x"
      using find_unique_id[OF assms Some] by blast
    show ?thesis
    proof (cases "h_status x \<in> {''running'', ''in_progress''}")
      case True
      have "map (\<lambda>r. if h_id r = hid then ?upd r else r) (sync_history d)
              = map (\<lambda>r. if h_id r = hid then ?v r else r) (sync_history d)"
        by (rule map_cong[OF refl]) (use same True in auto)
      with Some True show ?thesis
        by (simp add: service_finish_def get_sync_history_record_def Let_def update_sync_history_def)
    next
      case False
      have "map (\<lambda>r. if h_id r = hid then ?v r else r) (sync_history d) = sync_history d"
        by (rule map_idI) (use same False in auto)
      with Some False show ?thesis
        by (simp add: service_finish_def get_sync_history_record_def Let_def)
    qed
  qed
  then show ?thesis
    by (intro exI[of _ ?v]) simp
qed

lemma add_sync_history_rows:
  "sync_history (fst (add_sync_history d cid st msg a b now)) =
     sync_history d @ [\<lparr>h_id = Suc (last_history_id d), h_config_id = cid, h_status = st,
        h_message = msg, files_count = 0, files_processed = 0, files_copied = 0,
        files_updated = 0, files_deleted = 0, h_errors = 0,
        h_start_time = (case a of Some t \<Rightarrow> t | None \<Rightarrow> now), h_end_time = b\<rparr>]"
  "last_history_id (fst (add_sync_history d cid st msg a b now)) = Suc (last_history_id d)"
  "snd (add_sync_history d cid st msg a b now) = Suc (last_history_id d)"
  "configs (fst (add_sync_history d cid st msg a b now)) = configs d"
  "file_states (fst (add_sync_history d cid st msg a b now)) = file_states d"
  by (simp_all add: add_sync_history_def Let_def)

lemma history_ok_add:
  "history_ok d \<Longrightarrow> history_ok (fst (add_sync_history d cid st msg a b now))"
  by (auto simp: history_ok_def add_sync_history_rows list_all_iff)

lemma sync_config_no_target:
  assumes "get_sync_config d cid = Some cfg" and "target_type cfg = ''local''"
    and "target_path cfg = []"
  shows "sync_config remote fl w d cid now =
     (False, w, service_failed (fst (add_sync_history d cid ''running'' ServiceStart (Some now) None now))
                  (Suc (last_history_id d)) now, [])"
  using assms
  by (simp add: sync_config_def Let_def case_prod_beta add_sync_history_rows(3))

lemma sync_config_local:
  assumes "get_sync_config d cid = Some cfg" and "target_type cfg = ''local''"
    and "target_path cfg \<noteq> []"
  shows "sync_config remote fl w d cid now =
     (let d1 = fst (add_sync_history d cid ''running'' ServiceStart (Some now) None now);
          out = sync_folders fl w d1 cid (delete_missing cfg) (Suc (last_history_id d)) now;
          e = update_file_states (source w)
                \<lparr>dst = [], edb = out_db out, stats = out_stats out, effects = out_effects out\<rparr> cid
      in (errors (out_stats out) = 0, w\<lparr>target := out_target out\<rparr>,
          service_finish (edb e) (Suc (last_history_id d)) (out_stats out) now, effects e))"
  using assms
  by (simp add: sync_config_def Let_def case_prod_beta add_sync_history_rows(3))

lemma sync_config_direct:
  assumes ok: "history_ok d" and cfg: "get_sync_config d cid = Some cfg"
    and loc: "target_type cfg = ''local''"
  shows "\<exists>r. sync_history (fst (snd (snd (sync_config remote fl w d cid now)))) = sync_history d @ [r]
           \<and> h_id r = Suc (last_history_id d) \<and> h_config_id r = cid
           \<and> h_status r \<notin> {''running'', ''in_progress''}"
proof -
  let ?n = "last_history_id d"
  let ?d1 = "fst (add_sync_history d cid ''running'' ServiceStart (Some now) None now)"
  define row where "row = \<lparr>h_id = Suc ?n, h_config_id = cid, h_status = ''running'',
        h_message = ServiceStart, files_count = 0, files_processed = 0, files_copied = 0,
        files_updated = 0, files_deleted = 0, h_errors = 0,
        h_start_time = now, h_end_time = None\<rparr>"
  have row: "h_id row = Suc ?n" "h_config_id row = cid" by (simp_all add: row_def)
  have rows1: "sync_history ?d1 = sync_history d @ [row]"
    by (simp add: add_sync_history_rows row_def)
  have le: "list_all (\<lambda>r. h_id r \<le> ?n) (sync_history d)"
    using ok by (simp add: history_ok_def)
  have dist: "distinct (map h_id (sync_history d))"
    using ok by (simp add: history_ok_def)
  let ?res = "sync_config remote fl w d cid now"
  show ?thesis
  proof (cases "target_path cfg = []")
    case True
    let ?f = "\<lambda>r. r\<lparr>h_status := ''failed'', h_message := ServiceRaised, h_end_time := Some now\<rparr>"
    have "sync_history (fst (snd (snd ?res))) =
            map (\<lambda>r. if h_id r = Suc ?n then ?f r else r) (sync_history ?d1)"
      unfolding sync_config_no_target[OF cfg loc True]
      by (simp add: service_failed_def update_sync_history_def)
    also have "\<dots> = sync_history d @ [?f row]"
      unfolding rows1 by (rule map_new_row[OF le]) (rule row)
    finally show ?thesis using row by simp
  next
    case False
    let ?out = "sync_folders fl w ?d1 cid (delete_missing cfg) (Suc ?n) now"
    let ?e = "update_file_states (source w)
                \<lparr>dst = [], edb = out_db ?out, stats = out_stats ?out, effects = out_effects ?out\<rparr> cid"
    have res: "fst (snd (snd ?res)) = service_finish (edb ?e) (Suc ?n) (out_stats ?out) now"
      unfolding sync_config_local[OF cfg loc False] by (simp add: Let_def)
    obtain u where u: "sync_history (out_db ?out) =
               map (\<lambda>r. if h_id r = Suc ?n then u r else r) (sync_history ?d1)"
        "\<And>r. h_id (u r) = h_id r" "\<And>r. h_config_id (u r) = h_config_id r"
      using sync_folders_history[of "Suc ?n" fl w ?d1 cid "delete_missing cfg" now] by auto
    have rows2: "sync_history (out_db ?out) = sync_history d @ [u row]"
      unfolding u(1) rows1 by (rule map_new_row[OF le]) (rule row)
    have rows3: "sync_history (edb ?e) = sync_history d @ [u row]"
      using rows2 by simp
    have dist3: "distinct (map h_id (sync_history (edb ?e)))"
      unfolding rows3 using dist le u(2) row by (auto simp: list_all_iff)
    obtain v where v: "sync_history (service_finish (edb ?e) (Suc ?n) (out_stats ?out) now) =
               map (\<lambda>r. if h_id r = Suc ?n then v r else r) (sync_history (edb ?e))"
        "\<And>r. h_id (v r) = h_id r" "\<And>r. h_config_id (v r) = h_config_id r"
        "\<And>r. h_status (v r) \<notin> {''running'', ''in_progress''}"
      using service_finish_history[OF dist3, of "Suc ?n" "out_stats ?out" now] by auto
    have "sync_history (fst (snd (snd ?res))) = sync_history d @ [v (u row)]"
      unfolding res v(1) rows3 by (rule map_new_row[OF le]) (simp add: u(2) row)
    then show ?thesis
      using u(2,3) v(2,3,4) row by auto
  qed
qed

text \<open>
  The row of a run, column by column: what the engine writes when it closes the row, and
  that the service then leaves a closed row as it is.
\<close>

lemma sync_folders_history_exact:
  assumes "hid \<noteq> 0"
  shows "sync_history (out_db (sync_folders fl w d cid dm hid now)) =
     map (\<lambda>r. if h_id r = hid
               then (if source w = None
                     then r\<lparr>h_status := ''error'', h_message := SourceMissing\<rparr>
                     else if target w = None \<and> target_mkdir_fails fl
                     then r\<lparr>h_status := ''error'', h_message := TargetNotCreated\<rparr>
                     else finish_row (out_stats (sync_folders fl w d cid dm hid now)) now r)
               else r) (sync_history d)"
proof (cases "source w")
  case None
  with assms show ?thesis
    by (simp add: sync_folders_def update_sync_history_def)
next
  case (Some src)
  show ?thesis
  proof (cases "target w = None \<and> target_mkdir_fails fl")
    case True
    with assms Some show ?thesis
      by (simp add: sync_folders_def update_sync_history_def)
  next
    case False
    let ?e = "run_passes fl src (case target w of None \<Rightarrow> [] | Some t \<Rightarrow> t) d cid dm hid"
    have o: "out_db (sync_folders fl w d cid dm hid now) = finish_history (edb ?e) hid (stats ?e) now"
      "out_stats (sync_folders fl w d cid dm hid now) = stats ?e"
      using assms Some False by (auto simp: sync_folders_def Let_def)
    have nf: "(target w = None \<and> target_mkdir_fails fl) = False" using False by simp
    have h: "sync_history (finish_history (edb ?e) hid (stats ?e) now) =
               map (\<lambda>r. if h_id r = hid then finish_row (stats ?e) now r else r) (sync_history d)"
      using assms by (simp add: finish_history_def update_sync_history_def)
    show ?thesis
      unfolding o h by (simp add: Some nf)
  qed
qed

lemma service_finish_closed:
  assumes "\<forall>r \<in> set (sync_history d). h_id r = hid \<longrightarrow> h_status r \<notin> {''running'', ''in_progress''}"
  shows "sync_history (service_finish d hid res now) = sync_history d"
proof (cases "find (\<lambda>r. h_id r = hid) (sync_history d)")
  case None
  then show ?thesis by (simp add: service_finish_def get_sync_history_record_def Let_def)
next
  case (Some x)
  then have "x \<in> set (sync_history d)" "h_id x = hid"
    by (auto simp: find_Some_iff)
  with assms have "h_status x \<notin> {''running'', ''in_progress''}" by blast
  with Some show ?thesis by (simp add: service_finish_def get_sync_history_record_def Let_def)
qed


lemma sync_config_row:
  assumes ok: "history_ok d" and cfg: "get_sync_config d cid = Some cfg"
    and loc: "target_type cfg = ''local''"
  shows "sync_history (fst (snd (snd (sync_config remote fl w d cid now)))) =
     sync_history d @
       [(let row = \<lparr>h_id = Suc (last_history_id d), h_config_id = cid, h_status = ''running'',
                     h_message = ServiceStart, files_count = 0, files_processed = 0,
                     files_copied = 0, files_updated = 0, files_deleted = 0, h_errors = 0,
                     h_start_time = now, h_end_time = None\<rparr>
         in if target_path cfg = []
            then row\<lparr>h_status := ''failed'', h_message := ServiceRaised, h_end_time := Some now\<rparr>
            else if source w = None
            then row\<lparr>h_status := ''error'', h_message := SourceMissing\<rparr>
            else if target w = None \<and> target_mkdir_fails fl
            then row\<lparr>h_status := ''error'', h_message := TargetNotCreated\<rparr>
            else finish_row (engine_stats fl w d cid cfg now) now row)]"
proof -
  let ?n = "last_history_id d"
  let ?d1 = "fst (add_sync_history d cid ''running'' ServiceStart (Some now) None now)"
  define row where "row = \<lparr>h_id = Suc ?n, h_config_id = cid, h_status = ''running'',
        h_message = ServiceStart, files_count = 0, files_processed = 0, files_copied = 0,
        files_updated = 0, files_deleted = 0, h_errors = 0,
        h_start_time = now, h_end_time = None\<rparr>"
  have row: "h_id row = Suc ?n" by (simp add: row_def)
  have rows1: "sync_history ?d1 = sync_history d @ [row]"
    by (simp add: add_sync_history_rows row_def)
  have le: "list_all (\<lambda>r. h_id r \<le> ?n) (sync_history d)"
    using ok by (simp add: history_ok_def)
  let ?res = "sync_config remote fl w d cid now"
  show ?thesis
  proof (cases "target_path cfg = []")
    case True
    let ?f = "\<lambda>r. r\<lparr>h_status := ''failed'', h_message := ServiceRaised, h_end_time := Some now\<rparr>"
    have "sync_history (fst (snd (snd ?res))) =
            map (\<lambda>r. if h_id r = Suc ?n then ?f r else r) (sync_history ?d1)"
      unfolding sync_config_no_target[OF cfg loc True]
      by (simp add: service_failed_def update_sync_history_def)
    also have "\<dots> = sync_history d @ [?f row]"
      unfolding rows1 by (rule map_new_row[OF le]) (rule row)
    finally show ?thesis using True by (simp add: row_def Let_def)
  next
    case False
    let ?out = "sync_folders fl w ?d1 cid (delete_missing cfg) (Suc ?n) now"
    let ?e = "update_file_states (source w)
                \<lparr>dst = [], edb = out_db ?out, stats = out_stats ?out, effects = out_effects ?out\<rparr> cid"
    let ?c = "\<lambda>r. if source w = None
                     then r\<lparr>h_status := ''error'', h_message := SourceMissing\<rparr>
                     else if target w = None \<and> target_mkdir_fails fl
                     then r\<lparr>h_status := ''error'', h_message := TargetNotCreated\<rparr>
                     else finish_row (out_stats ?out) now r"
    have res: "fst (snd (snd ?res)) = service_finish (edb ?e) (Suc ?n) (out_stats ?out) now"
      unfolding sync_config_local[OF cfg loc False] by (simp add: Let_def)
    have "sync_history (out_db ?out) =
            map (\<lambda>r. if h_id r = Suc ?n then ?c r else r) (sync_history ?d1)"
      by (rule sync_folders_history_exact) simp
    also have "\<dots> = sync_history d @ [?c row]"
      unfolding rows1 by (rule map_new_row[OF le]) (rule row)
    finally have rows2: "sync_history (edb ?e) = sync_history d @ [?c row]" by simp
    have closed: "h_status (?c row) \<notin> {''running'', ''in_progress''}"
      by (simp add: finish_row_def)
    have "\<forall>r \<in> set (sync_history (edb ?e)). h_id r = Suc ?n
             \<longrightarrow> h_status r \<notin> {''running'', ''in_progress''}"
      unfolding rows2 using le closed by (auto simp: list_all_iff)
    then have "sync_history (fst (snd (snd ?res))) = sync_history (edb ?e)"
      unfolding res by (rule service_finish_closed)
    then show ?thesis unfolding rows2 using False by (simp add: row_def Let_def)
  qed
qed

lemma sync_config_result:
  assumes cfg: "get_sync_config d cid = Some cfg" and loc: "target_type cfg = ''local''"
  shows "fst (sync_config remote fl w d cid now)
           = (target_path cfg \<noteq> [] \<and> errors (engine_stats fl w d cid cfg now) = 0)"
proof (cases "target_path cfg = []")
  case True
  then show ?thesis unfolding sync_config_no_target[OF cfg loc True] by simp
next
  case False
  then show ?thesis unfolding sync_config_local[OF cfg loc False] by (simp add: Let_def)
qed


lemma handle_sync_task_returns:
  assumes ok: "history_ok (db s)" and cfg: "get_sync_config (db s) cid = Some cfg"
    and loc: "target_type cfg = ''local''"
  shows "sync_history (db (fst (handle_sync_task remote fl False w s cid ts now))) =
     sync_history (db s) @
       [(let status = (if fst (sync_config remote fl w (db (handle_sync_task_begin s cid ts now)) cid now)
                       then ''completed'' else ''failed'')
         in \<lparr>h_id = Suc (last_history_id (db s)), h_config_id = cid, h_status = status,
              h_message = ScheduledEnd status, files_count = 0, files_processed = 0,
              files_copied = 0, files_updated = 0, files_deleted = 0, h_errors = 0,
              h_start_time = now, h_end_time = Some now\<rparr>),
        last (sync_history (fst (snd (snd
          (sync_config remote fl w (db (handle_sync_task_begin s cid ts now)) cid now)))))]"
proof -
  let ?n = "last_history_id (db s)"
  let ?s1 = "handle_sync_task_begin s cid ts now"
  let ?d1 = "fst (add_sync_history (db s) cid ''running'' ScheduledStart (Some now) None now)"
  define row where "row = \<lparr>h_id = Suc ?n, h_config_id = cid, h_status = ''running'',
        h_message = ScheduledStart, files_count = 0, files_processed = 0, files_copied = 0,
        files_updated = 0, files_deleted = 0, h_errors = 0,
        h_start_time = now, h_end_time = None\<rparr>"
  have row: "h_id row = Suc ?n" by (simp add: row_def)
  have s1: "db ?s1 = ?d1" "worker ?s1 = Some (cid, ts, Suc ?n)"
    using cfg by (simp_all add: handle_sync_task_begin_def case_prod_beta add_sync_history_rows(3))
  have rows1: "sync_history ?d1 = sync_history (db s) @ [row]"
    by (simp add: add_sync_history_rows row_def)
  have ok1: "history_ok ?d1" using ok by (rule history_ok_add)
  have cfg1: "get_sync_config ?d1 cid = Some cfg"
    using cfg by (simp add: get_sync_config_def add_sync_history_rows)
  let ?res = "sync_config remote fl w ?d1 cid now"
  obtain r2 where r2: "sync_history (fst (snd (snd ?res))) = sync_history ?d1 @ [r2]"
      "h_id r2 = Suc (last_history_id ?d1)"
    using sync_config_direct[OF ok1 cfg1 loc, of remote fl w now] by blast
  let ?status = "if fst ?res then ''completed'' else ''failed''"
  let ?f = "\<lambda>r. r\<lparr>h_status := ?status, h_message := ScheduledEnd ?status, h_end_time := Some now\<rparr>"
  have le: "list_all (\<lambda>r. h_id r \<le> ?n) (sync_history (db s))"
    using ok by (simp add: history_ok_def)
  have old: "map (\<lambda>r. if h_id r = Suc ?n then ?f r else r) (sync_history (db s)) = sync_history (db s)"
    using le by (rule map_old_rows)
  have fin: "db (fst (handle_sync_task remote fl False w s cid ts now)) =
          update_sync_history (fst (snd (snd ?res))) (Suc ?n) ?f"
    using cfg s1
    by (simp add: handle_sync_task_def Let_def case_prod_beta handle_sync_task_end_def)
  have "sync_history (db (fst (handle_sync_task remote fl False w s cid ts now)))
          = sync_history (db s) @ [?f row, r2]"
    unfolding fin using old r2(1,2) rows1 row
    by (simp add: update_sync_history_def add_sync_history_rows)
  moreover have "last (sync_history (fst (snd (snd ?res)))) = r2"
    unfolding r2(1) by simp
  ultimately show ?thesis
    unfolding s1(1) by (simp add: row_def Let_def)
qed

text \<open>
  When the call of \<open>sync_config\<close> raises, the \<open>except\<close> branch of \<open>_handle_sync_task\<close>
  adds a row with status \<open>failed\<close>; the row it opened before the call is not written
  again and keeps the status \<open>running\<close>.
\<close>

lemma handle_sync_task_raised:
  assumes cfg: "get_sync_config (db s) cid = Some cfg"
  shows "sync_history (db (fst (handle_sync_task remote fl True w s cid ts now))) =
     sync_history (db s) @
       [\<lparr>h_id = Suc (last_history_id (db s)), h_config_id = cid, h_status = ''running'',
         h_message = ScheduledStart, files_count = 0, files_processed = 0,
         files_copied = 0, files_updated = 0, files_deleted = 0, h_errors = 0,
         h_start_time = now, h_end_time = None\<rparr>,
        \<lparr>h_id = Suc (Suc (last_history_id (db s))), h_config_id = cid, h_status = ''failed'',
         h_message = TaskRaised, files_count = 0, files_processed = 0,
         files_copied = 0, files_updated = 0, files_deleted = 0, h_errors = 0,
         h_start_time = ts, h_end_time = Some now\<rparr>]"
  using cfg
  by (simp add: handle_sync_task_def handle_sync_task_begin_def handle_sync_task_end_def
        Let_def case_prod_beta add_sync_history_rows)

text \<open>
  C7, as amended. With well-formed history ids, every run of \<open>SyncService.sync_config\<close>
  for an existing local configuration adds exactly one row to \<open>sync_history\<close> and leaves
  it finalized, neither \<open>running\<close> nor \<open>in_progress\<close>, with a message, whatever the
  outcome. When the source folder exists and the target folder exists or can be created,
  the row has status \<open>success\<close> if the error counter of the run is 0 and \<open>error\<close>
  otherwise, the summary message, the aggregate counts and an end time. When the source
  folder is missing or the target folder cannot be created, the status is \<open>error\<close> with
  the message that says so; without a target path it is \<open>failed\<close>, with a message and
  an end time. \<open>sync_config\<close> returns \<open>True\<close> exactly when a target path is set and the
  error counter is 0. A run made by the scheduler (\<open>_handle_sync_task\<close>) in which
  \<open>sync_config\<close> returns adds two rows, the scheduler's own and the service's: the
  scheduler's row ends as \<open>completed\<close> when \<open>sync_config\<close> returned \<open>True\<close> and as
  \<open>failed\<close> otherwise, with a message and an end time; the service's row is the one of
  the run, finalized as before.
\<close>

theorem run_finalization:
  assumes "history_ok (db s)" and "get_sync_config (db s) cid = Some cfg"
    and "target_type cfg = ''local''"
  shows "(\<exists>r. sync_history (fst (snd (snd (sync_config remote fl w (db s) cid now))))
                = sync_history (db s) @ [r]
            \<and> h_config_id r = cid
            \<and> h_status r \<notin> {''running'', ''in_progress''}
            \<and> h_message r \<noteq> ServiceStart
            \<and> (target_path cfg \<noteq> [] \<and> source w \<noteq> None
                 \<and> \<not> (target w = None \<and> target_mkdir_fails fl) \<longrightarrow>
                  h_status r = (if errors (engine_stats fl w (db s) cid cfg now) = 0
                                then ''success'' else ''error'')
                \<and> h_message r = Summary (copied (engine_stats fl w (db s) cid cfg now))
                                   (updated (engine_stats fl w (db s) cid cfg now))
                                   (deleted (engine_stats fl w (db s) cid cfg now))
                                   (skipped (engine_stats fl w (db s) cid cfg now))
                                   (errors (engine_stats fl w (db s) cid cfg now))
                \<and> files_count r = copied (engine_stats fl w (db s) cid cfg now)
                                   + updated (engine_stats fl w (db s) cid cfg now)
                                   + skipped (engine_stats fl w (db s) cid cfg now)
                \<and> files_processed r = copied (engine_stats fl w (db s) cid cfg now)
                                       + updated (engine_stats fl w (db s) cid cfg now)
                \<and> files_copied r = copied (engine_stats fl w (db s) cid cfg now)
                \<and> files_updated r = updated (engine_stats fl w (db s) cid cfg now)
                \<and> files_deleted r = deleted (engine_stats fl w (db s) cid cfg now)
                \<and> h_errors r = errors (engine_stats fl w (db s) cid cfg now)
                \<and> h_end_time r = Some now)
            \<and> (target_path cfg \<noteq> [] \<and> source w = None \<longrightarrow>
                  h_status r = ''error'' \<and> h_message r = SourceMissing)
            \<and> (target_path cfg \<noteq> [] \<and> source w \<noteq> None
                 \<and> target w = None \<and> target_mkdir_fails fl \<longrightarrow>
                  h_status r = ''error'' \<and> h_message r = TargetNotCreated)
            \<and> (target_path cfg = [] \<longrightarrow>
                  h_status r = ''failed'' \<and> h_message r = ServiceRaised
                \<and> h_end_time r = Some now))
       \<and> fst (sync_config remote fl w (db s) cid now)
           = (target_path cfg \<noteq> [] \<and> errors (engine_stats fl w (db s) cid cfg now) = 0)
       \<and> (\<exists>r1 r2. sync_history (db (fst (handle_sync_task remote fl False w s cid ts now)))
                   = sync_history (db s) @ [r1, r2]
            \<and> h_config_id r1 = cid
            \<and> h_status r1 =
                (if fst (sync_config remote fl w (db (handle_sync_task_begin s cid ts now)) cid now)
                 then ''completed'' else ''failed'')
            \<and> h_message r1 = ScheduledEnd (h_status r1)
            \<and> h_end_time r1 = Some now
            \<and> r2 = last (sync_history (fst (snd (snd
                 (sync_config remote fl w (db (handle_sync_task_begin s cid ts now)) cid now)))))
            \<and> h_config_id r2 = cid
            \<and> h_status r2 \<notin> {''running'', ''in_progress''})"
proof (intro conjI)
  let ?st = "engine_stats fl w (db s) cid cfg now"
  show "\<exists>r. sync_history (fst (snd (snd (sync_config remote fl w (db s) cid now))))
                = sync_history (db s) @ [r]
            \<and> h_config_id r = cid
            \<and> h_status r \<notin> {''running'', ''in_progress''}
            \<and> h_message r \<noteq> ServiceStart
            \<and> (target_path cfg \<noteq> [] \<and> source w \<noteq> None
                 \<and> \<not> (target w = None \<and> target_mkdir_fails fl) \<longrightarrow>
                  h_status r = (if errors ?st = 0 then ''success'' else ''error'')
                \<and> h_message r = Summary (copied ?st) (updated ?st) (deleted ?st) (skipped ?st)
                                   (errors ?st)
                \<and> files_count r = copied ?st + updated ?st + skipped ?st
                \<and> files_processed r = copied ?st + updated ?st
                \<and> files_copied r = copied ?st
                \<and> files_updated r = updated ?st
                \<and> files_deleted r = deleted ?st
                \<and> h_errors r = errors ?st
                \<and> h_end_time r = Some now)
            \<and> (target_path cfg \<noteq> [] \<and> source w = None \<longrightarrow>
                  h_status r = ''error'' \<and> h_message r = SourceMissing)
            \<and> (target_path cfg \<noteq> [] \<and> source w \<noteq> None
                 \<and> target w = None \<and> target_mkdir_fails fl \<longrightarrow>
                  h_status r = ''error'' \<and> h_message r = TargetNotCreated)
            \<and> (target_path cfg = [] \<longrightarrow>
                  h_status r = ''failed'' \<and> h_message r = ServiceRaised
                \<and> h_end_time r = Some now)"
    unfolding sync_config_row[OF assms]
    by (simp add: Let_def finish_row_def)
  show "fst (sync_config remote fl w (db s) cid now)
           = (target_path cfg \<noteq> [] \<and> errors ?st = 0)"
    using assms(2,3) by (rule sync_config_result)
  let ?s1 = "handle_sync_task_begin s cid ts now"
  have s1: "db ?s1 = fst (add_sync_history (db s) cid ''running'' ScheduledStart (Some now) None now)"
    using assms(2) by (simp add: handle_sync_task_begin_def case_prod_beta)
  have ok1: "history_ok (db ?s1)" unfolding s1 using assms(1) by (rule history_ok_add)
  have cfg1: "get_sync_config (db ?s1) cid = Some cfg"
    unfolding s1 using assms(2) by (simp add: get_sync_config_def add_sync_history_rows)
  obtain r2 where r2: "sync_history (fst (snd (snd (sync_config remote fl w (db ?s1) cid now))))
                         = sync_history (db ?s1) @ [r2]"
      "h_config_id r2 = cid" "h_status r2 \<notin> {''running'', ''in_progress''}"
    using sync_config_direct[OF ok1 cfg1 assms(3), of remote fl w now] by blast
  have l: "last (sync_history (fst (snd (snd (sync_config remote fl w (db ?s1) cid now))))) = r2"
    unfolding r2(1) by simp
  show "\<exists>r1 r2. sync_history (db (fst (handle_sync_task remote fl False w s cid ts now)))
                   = sync_history (db s) @ [r1, r2]
            \<and> h_config_id r1 = cid
            \<and> h_status r1 =
                (if fst (sync_config remote fl w (db ?s1) cid now)
                 then ''completed'' else ''failed'')
            \<and> h_message r1 = ScheduledEnd (h_status r1)
            \<and> h_end_time r1 = Some now
            \<and> r2 = last (sync_history (fst (snd (snd
                 (sync_config remote fl w (db ?s1) cid now)))))
            \<and> h_config_id r2 = cid
            \<and> h_status r2 \<notin> {''running'', ''in_progress''}"
    unfolding handle_sync_task_returns[OF assms] l
    using r2(2,3) by (simp add: Let_def)
qed


theorem run_finalization_witness:
  "history_ok (db idle_scheduler) \<and> get_sync_config (db idle_scheduler) 1 = Some local_config
   \<and> target_type local_config = ''local'' \<and> target_path local_config \<noteq> []
   \<and> source fresh_world \<noteq> None
   \<and> \<not> (target fresh_world = None \<and> target_mkdir_fails no_faults)
   \<and> engine_stats no_faults fresh_world (db idle_scheduler) 1 local_config 5
        = \<lparr>copied = 1, updated = 0, deleted = 0, skipped = 0, errors = 0\<rparr>
   \<and> (\<exists>r. sync_history (fst (snd (snd (sync_config no_remote no_faults fresh_world
                (db idle_scheduler) 1 5)))) = sync_history (db idle_scheduler) @ [r]
          \<and> h_config_id r = 1 \<and> h_status r = ''success'' \<and> h_message r = Summary 1 0 0 0 0
          \<and> files_count r = 1 \<and> files_processed r = 1 \<and> files_copied r = 1
          \<and> files_updated r = 0 \<and> files_deleted r = 0 \<and> h_errors r = 0
          \<and> h_end_time r = Some 5)
   \<and> fst (sync_config no_remote no_faults fresh_world (db idle_scheduler) 1 5)
   \<and> (\<exists>r1 r2. sync_history (db (fst (handle_sync_task no_remote no_faults False fresh_world
                idle_scheduler 1 3 5))) = sync_history (db idle_scheduler) @ [r1, r2]
          \<and> h_status r1 = ''completed'' \<and> h_message r1 = ScheduledEnd ''completed''
          \<and> h_end_time r1 = Some 5
          \<and> h_status r2 \<notin> {''running'', ''in_progress''})"
proof -
  have h: "history_ok (db idle_scheduler)"
    by (simp add: history_ok_def idle_scheduler_def init_scheduler_def one_config_def)
  have c: "get_sync_config (db idle_scheduler) 1 = Some local_config"
    by (simp add: get_sync_config_def idle_scheduler_def init_scheduler_def one_config_def)
  have t: "target_type local_config = ''local''" "target_path local_config \<noteq> []"
    by (simp_all add: local_config_def)
  have sw: "source fresh_world \<noteq> None"
    "\<not> (target fresh_world = None \<and> target_mkdir_fails no_faults)"
    by (simp_all add: fresh_world_def)
  have st: "engine_stats no_faults fresh_world (db idle_scheduler) 1 local_config 5
        = \<lparr>copied = 1, updated = 0, deleted = 0, skipped = 0, errors = 0\<rparr>"
    by code_simp
  have res: "fst (sync_config no_remote no_faults fresh_world
                (db (handle_sync_task_begin idle_scheduler 1 3 5)) 1 5)"
    by code_simp
  note rf = run_finalization[where remote = no_remote and fl = no_faults and w = fresh_world
      and now = 5 and ts = 3, OF h c t(1)]
  show ?thesis
    using rf h c t sw st res by auto
qed

text \<open>
  C7 as stated fails: a run without errors, made by the scheduler, leaves two rows, and
  the row that the engine finalizes has status \<open>success\<close>, not \<open>completed\<close>; the same
  holds for the one row of a direct run. When the call of \<open>sync_config\<close> raises, the
  scheduler's row stays \<open>running\<close> for good, beside a row with status \<open>failed\<close>.
\<close>

theorem run_finalization_counterexample:
  "errors (out_stats (sync_folders no_faults fresh_world one_config 1 True 0 5)) = 0
   \<and> map h_status (sync_history (fst (snd (snd
        (sync_config no_remote no_faults fresh_world one_config 1 5))))) = [''success'']
   \<and> map h_status (sync_history (db (fst
        (handle_sync_task no_remote no_faults False fresh_world idle_scheduler 1 3 5))))
        = [''completed'', ''success'']
   \<and> map h_status (sync_history (db (fst
        (handle_sync_task no_remote no_faults True fresh_world idle_scheduler 1 3 5))))
        = [''running'', ''failed'']"
  by code_simp

section \<open>Theorems: continue on error\<close>



lemma sync_source_file_handled:
  "handled (stats (sync_source_file fl src tf cid sid e p)) = Suc (handled (stats e))"
  by (auto simp: sync_source_file_def handled_def Let_def copy_file_errors split: prod.splits
        dest!: arg_cong[where f = "\<lambda>r. (copied (stats (fst r)), updated (stats (fst r)),
                 skipped (stats (fst r)), errors (stats (fst r)), snd r)"])

lemma copy_pass_handled:
  "handled (stats (copy_pass fl src tf cid sid e ps)) = handled (stats e) + length ps"
  unfolding copy_pass_def
  by (induction ps arbitrary: e) (simp_all add: sync_source_file_handled)

lemma sync_folders_no_delete:
  assumes "source w = Some src" and "\<not> (target w = None \<and> target_mkdir_fails fl)"
  shows "out_stats (sync_folders fl w d cid False hid now) =
           stats (copy_pass fl src
                    (get_files_list (Some (case target w of None \<Rightarrow> [] | Some t \<Rightarrow> t)))
                    cid (if hid \<noteq> 0 then hid else Suc (last_history_id d))
                    \<lparr>dst = (case target w of None \<Rightarrow> [] | Some t \<Rightarrow> t),
                      edb = (if hid \<noteq> 0 then d
                             else fst (add_sync_history d cid ''in_progress'' LocalStart None None now)),
                      stats = no_stats, effects = []\<rparr>
                    (get_files_list (Some src)))"
  using assms
  by (auto simp: sync_folders_def run_passes_def Let_def case_prod_beta add_sync_history_rows(3))

lemma failed_transfer:
  assumes "\<not> mkdir_fails fl p" and "p \<notin> set tf \<or> need_update src e cid p"
    and "copy_fails fl p"
  shows "errors (stats (sync_source_file fl src tf cid sid e p)) = Suc (errors (stats e))"
    and "copied (stats (sync_source_file fl src tf cid sid e p)) = copied (stats e)"
    and "updated (stats (sync_source_file fl src tf cid sid e p)) = updated (stats e)"
    and "skipped (stats (sync_source_file fl src tf cid sid e p)) = skipped (stats e)"
    and "edb (sync_source_file fl src tf cid sid e p) = edb e"
proof -
  have f: "snd (copy_file fl src e p) = False"
    using assms(3) by (simp add: copy_file_def Let_def split: option.splits)
  have eq: "sync_source_file fl src tf cid sid e p = fst (copy_file fl src e p)"
    using assms(1,2) f by (auto simp: sync_source_file_def case_prod_beta)
  show "errors (stats (sync_source_file fl src tf cid sid e p)) = Suc (errors (stats e))"
    unfolding eq using f by (simp add: copy_file_errors)
  show "copied (stats (sync_source_file fl src tf cid sid e p)) = copied (stats e)"
    "updated (stats (sync_source_file fl src tf cid sid e p)) = updated (stats e)"
    "skipped (stats (sync_source_file fl src tf cid sid e p)) = skipped (stats e)"
    "edb (sync_source_file fl src tf cid sid e p) = edb e"
    unfolding eq by simp_all
qed

text \<open>
  C9, as amended. A transfer that fails adds one to the error counter and nothing to the
  other counters, writes no row to \<open>sync_file_operations\<close> and none to \<open>file_states\<close>;
  it does not stop the loop: the copy loop goes through every source file, each one
  ending in exactly one of the counters copied, updated, skipped, errors, so that a run
  without the delete pass ends with these four adding up to the number of source files.
\<close>

theorem continue_on_error:
  "(\<not> mkdir_fails fl p \<and> (p \<notin> set tf \<or> need_update src e cid p) \<and> copy_fails fl p \<longrightarrow>
       errors (stats (sync_source_file fl src tf cid sid e p)) = Suc (errors (stats e))
     \<and> copied (stats (sync_source_file fl src tf cid sid e p)) = copied (stats e)
     \<and> updated (stats (sync_source_file fl src tf cid sid e p)) = updated (stats e)
     \<and> skipped (stats (sync_source_file fl src tf cid sid e p)) = skipped (stats e)
     \<and> file_operations (edb (sync_source_file fl src tf cid sid e p)) = file_operations (edb e)
     \<and> file_states (edb (sync_source_file fl src tf cid sid e p)) = file_states (edb e))
   \<and> handled (stats (copy_pass fl src tf cid sid e ps)) = handled (stats e) + length ps
   \<and> (source w \<noteq> None \<and> \<not> (target w = None \<and> target_mkdir_fails fl) \<longrightarrow>
        handled (out_stats (sync_folders fl w d cid False hid now))
          = length (get_files_list (source w)))"
proof (intro conjI impI)
  assume a: "\<not> mkdir_fails fl p \<and> (p \<notin> set tf \<or> need_update src e cid p) \<and> copy_fails fl p"
  then have a1: "\<not> mkdir_fails fl p" and a2: "p \<notin> set tf \<or> need_update src e cid p"
    and a3: "copy_fails fl p" by blast+
  note ft = failed_transfer[OF a1 a2 a3, of sid]
  show "errors (stats (sync_source_file fl src tf cid sid e p)) = Suc (errors (stats e))"
    by (rule ft)
  show "copied (stats (sync_source_file fl src tf cid sid e p)) = copied (stats e)"
    by (rule ft)
  show "updated (stats (sync_source_file fl src tf cid sid e p)) = updated (stats e)"
    by (rule ft)
  show "skipped (stats (sync_source_file fl src tf cid sid e p)) = skipped (stats e)"
    by (rule ft)
  show "file_operations (edb (sync_source_file fl src tf cid sid e p)) = file_operations (edb e)"
    by (simp add: ft(5))
  show "file_states (edb (sync_source_file fl src tf cid sid e p)) = file_states (edb e)"
    by (simp add: ft(5))
next
  show "handled (stats (copy_pass fl src tf cid sid e ps)) = handled (stats e) + length ps"
    by (rule copy_pass_handled)
next
  assume b: "source w \<noteq> None \<and> \<not> (target w = None \<and> target_mkdir_fails fl)"
  then obtain src' where s: "source w = Some src'" by auto
  from b have t: "\<not> (target w = None \<and> target_mkdir_fails fl)" by blast
  show "handled (out_stats (sync_folders fl w d cid False hid now))
          = length (get_files_list (source w))"
    unfolding sync_folders_no_delete[OF s t] copy_pass_handled
    by (simp add: s handled_def no_stats_def)
qed

theorem continue_on_error_witness:
  "\<not> mkdir_fails x_fails [''x.txt''] \<and> [''x.txt''] \<notin> set [] \<and> copy_fails x_fails [''x.txt'']
   \<and> source two_files \<noteq> None \<and> \<not> (target two_files = None \<and> target_mkdir_fails x_fails)
   \<and> errors (stats (sync_source_file x_fails [([''x.txt''], file_a), ([''y.txt''], file_b)] [] 1 1
         \<lparr>dst = [], edb = one_config, stats = no_stats, effects = []\<rparr> [''x.txt''])) = 1
   \<and> file_operations (edb (sync_source_file x_fails [([''x.txt''], file_a), ([''y.txt''], file_b)] [] 1 1
         \<lparr>dst = [], edb = one_config, stats = no_stats, effects = []\<rparr> [''x.txt''])) = []
   \<and> handled (out_stats (sync_folders x_fails two_files one_config 1 False 0 5)) = 2"
  using continue_on_error[of x_fails "[''x.txt'']" "[]" "[([''x.txt''], file_a), ([''y.txt''], file_b)]"
      "\<lparr>dst = [], edb = one_config, stats = no_stats, effects = []\<rparr>" 1 1 "[]" two_files
      one_config 0 5]
  by (simp add: x_fails_def no_faults_def two_files_def no_stats_def one_config_def hidden_def)

text \<open>
  C9 as stated fails: the failed transfer of \<open>x.txt\<close> is counted, the run goes on and
  copies \<open>y.txt\<close>, but the per-file operation records hold the successful copy only.
\<close>

theorem continue_on_error_counterexample:
  "out_stats (sync_folders x_fails two_files one_config 1 True 0 5)
     = \<lparr>copied = 1, updated = 0, deleted = 0, skipped = 0, errors = 1\<rparr>
   \<and> map op_file_path (file_operations (out_db (sync_folders x_fails two_files one_config 1 True 0 5)))
     = [[''y.txt'']]
   \<and> map op_status (file_operations (out_db (sync_folders x_fails two_files one_config 1 True 0 5)))
     = [''success'']"
  by code_simp

section \<open>Theorems: order of file-state writes\<close>

lemma justified_append:
  "justified prev (xs @ ys) =
     (justified prev xs \<and> justified (if xs = [] then prev else Some (last xs)) ys)"
proof (induction xs arbitrary: prev)
  case Nil
  then show ?case by simp
next
  case (Cons x xs)
  then show ?case by (cases x) auto
qed

lemma sync_source_file_justified:
  assumes "justified None (effects e)"
  shows "justified None (effects (sync_source_file fl src tf cid sid e p))"
proof -
  have c: "effects (fst (copy_file fl src e p)) = effects e @ [Put p (snd (copy_file fl src e p))]"
    by (rule copy_file_effects)
  show ?thesis
    using assms c
    by (auto simp: sync_source_file_def Let_def case_prod_beta update_file_state_in_db_def
          justified_append split: option.splits)
qed

lemma delete_file_effects:
  "effects (fst (delete_file fl e p)) =
     (if map_of (dst e) p = None then effects e
      else effects e @ [Remove p (snd (delete_file fl e p))])"
  by (simp add: delete_file_def split: option.splits)

lemma delete_target_file_justified:
  assumes "justified None (effects e)"
  shows "justified None (effects (delete_target_file fl sf sy cid sid e p))"
  using assms delete_file_effects[of fl e p]
  by (auto simp: delete_target_file_def Let_def case_prod_beta justified_append
        delete_file_def split: option.splits if_splits)

lemma copy_pass_justified:
  "justified None (effects e) \<Longrightarrow> justified None (effects (copy_pass fl src tf cid sid e ps))"
  unfolding copy_pass_def
  by (induction ps arbitrary: e) (simp_all add: sync_source_file_justified)

lemma delete_fold_justified:
  "justified None (effects e) \<Longrightarrow>
     justified None (effects (foldl (delete_target_file fl sf sy cid sid) e tf))"
  by (induction tf arbitrary: e) (simp_all add: delete_target_file_justified)

lemma delete_pass_justified:
  "justified None (effects e) \<Longrightarrow> justified None (effects (delete_pass fl sf tf cid sid e))"
  unfolding delete_pass_def Let_def by (rule delete_fold_justified)

lemma sync_folders_justified:
  "justified None (out_effects (sync_folders fl w d cid dm hid now))"
proof -
  have "justified None (effects (run_passes fl src tgt d' cid dm sid))" for src tgt d' sid
    by (simp add: run_passes_def Let_def copy_pass_justified delete_pass_justified)
  then show ?thesis
    by (auto simp: sync_folders_def Let_def case_prod_beta split: option.splits)
qed

lemma rows_of_update_other:
  "p \<noteq> q \<Longrightarrow> rows_of (update_file_state rows cid q h mt st) cid p = rows_of rows cid p"
  by (auto simp: rows_of_def update_file_state_def intro: filter_cong)

lemma rows_of_delete_other:
  "p \<noteq> q \<Longrightarrow> rows_of (delete_file_state rows cid q) cid p = rows_of rows cid p"
  by (auto simp: rows_of_def delete_file_state_def intro: filter_cong)

lemma sync_source_file_rows:
  "rows_of (file_states (edb (sync_source_file fl src tf cid sid e q))) cid p
     \<noteq> rows_of (file_states (edb e)) cid p
   \<Longrightarrow> StateUpsert p \<in> set (effects (sync_source_file fl src tf cid sid e q))"
  by (cases "p = q")
     (auto simp: sync_source_file_def Let_def case_prod_beta update_file_state_in_db_def
        rows_of_update_other split: option.splits if_splits)

lemma sync_source_file_effects_mono:
  "set (effects e) \<subseteq> set (effects (sync_source_file fl src tf cid sid e q))"
  using copy_file_effects[of fl src e q]
  by (auto simp: sync_source_file_def Let_def case_prod_beta update_file_state_in_db_def
        split: option.splits if_splits)

lemma delete_target_file_rows:
  "rows_of (file_states (edb (delete_target_file fl sf sy cid sid e q))) cid p
     \<noteq> rows_of (file_states (edb e)) cid p
   \<Longrightarrow> StateDelete p \<in> set (effects (delete_target_file fl sf sy cid sid e q))"
  by (cases "p = q")
     (auto simp: delete_target_file_def Let_def case_prod_beta rows_of_delete_other
        split: option.splits if_splits)

lemma delete_target_file_effects_mono:
  "set (effects e) \<subseteq> set (effects (delete_target_file fl sf sy cid sid e q))"
  using delete_file_effects[of fl e q]
  by (auto simp: delete_target_file_def Let_def case_prod_beta split: option.splits if_splits)

lemma copy_pass_accounted:
  "accounted e rows0 cid p \<Longrightarrow> accounted (copy_pass fl src tf cid sid e ps) rows0 cid p"
  unfolding copy_pass_def
proof (induction ps arbitrary: e)
  case Nil
  then show ?case by simp
next
  case (Cons q ps)
  have "accounted (sync_source_file fl src tf cid sid e q) rows0 cid p"
    using Cons.prems sync_source_file_rows[of fl src tf cid sid e q p]
      sync_source_file_effects_mono[of e fl src tf cid sid q]
    unfolding accounted_def by (metis subsetD)
  then show ?case using Cons.IH by simp
qed

lemma delete_fold_accounted:
  "accounted e rows0 cid p \<Longrightarrow>
     accounted (foldl (delete_target_file fl sf sy cid sid) e tf) rows0 cid p"
proof (induction tf arbitrary: e)
  case Nil
  then show ?case by simp
next
  case (Cons q tf)
  have "accounted (delete_target_file fl sf sy cid sid e q) rows0 cid p"
    using Cons.prems delete_target_file_rows[of fl sf sy cid sid e q p]
      delete_target_file_effects_mono[of e fl sf sy cid sid q]
    unfolding accounted_def by (metis subsetD)
  then show ?case using Cons.IH by simp
qed

lemma run_passes_accounted:
  "accounted (run_passes fl src tgt d cid dm sid) (file_states d) cid p"
proof -
  have "accounted \<lparr>dst = tgt, edb = d, stats = no_stats, effects = []\<rparr> (file_states d) cid p"
    by (simp add: accounted_def)
  then show ?thesis
    by (simp add: run_passes_def Let_def delete_pass_def copy_pass_accounted delete_fold_accounted)
qed

lemma file_states_finish_history [simp]:
  "file_states (finish_history d sid st now) = file_states d"
  by (simp add: finish_history_def)

lemma sync_folders_accounted:
  assumes "rows_of (file_states (out_db (sync_folders fl w d cid dm hid now))) cid p
             \<noteq> rows_of (file_states d) cid p"
  shows "StateUpsert p \<in> set (out_effects (sync_folders fl w d cid dm hid now))
       \<or> StateDelete p \<in> set (out_effects (sync_folders fl w d cid dm hid now))"
proof (cases "source w")
  case None
  with assms show ?thesis
    by (simp add: sync_folders_def case_prod_beta add_sync_history_rows split: if_splits)
next
  case (Some src)
  show ?thesis
  proof (cases "target w = None \<and> target_mkdir_fails fl")
    case True
    with assms Some show ?thesis
      by (simp add: sync_folders_def case_prod_beta add_sync_history_rows split: if_splits)
  next
    case False
    let ?tgt = "case target w of None \<Rightarrow> [] | Some t \<Rightarrow> t"
    let ?d1 = "if hid \<noteq> 0 then d
               else fst (add_sync_history d cid ''in_progress'' LocalStart None None now)"
    let ?sid = "if hid \<noteq> 0 then hid else Suc (last_history_id d)"
    let ?e = "run_passes fl src ?tgt ?d1 cid dm ?sid"
    have o: "file_states (out_db (sync_folders fl w d cid dm hid now)) = file_states (edb ?e)"
      "out_effects (sync_folders fl w d cid dm hid now) = effects ?e"
      using Some False
      by (auto simp: sync_folders_def Let_def case_prod_beta add_sync_history_rows(3))
    have "file_states ?d1 = file_states d" by (simp add: add_sync_history_rows)
    with run_passes_accounted[of fl src ?tgt ?d1 cid dm ?sid p]
    have "accounted ?e (file_states d) cid p" by simp
    with assms show ?thesis unfolding o accounted_def by blast
  qed
qed

text \<open>
  C4, as amended. Within \<open>sync_folders\<close> every upsert of a \<open>file_states\<close> row comes
  directly after the successful copy of that path and every deletion of a row directly
  after the successful removal of that path from the destination; and the engine changes
  the rows of a path only through these writes.
\<close>

theorem state_writes_follow_success:
  "justified None (out_effects (sync_folders fl w d cid dm hid now))
   \<and> (rows_of (file_states (out_db (sync_folders fl w d cid dm hid now))) cid p
         \<noteq> rows_of (file_states d) cid p \<longrightarrow>
        StateUpsert p \<in> set (out_effects (sync_folders fl w d cid dm hid now))
      \<or> StateDelete p \<in> set (out_effects (sync_folders fl w d cid dm hid now)))"
  using sync_folders_justified sync_folders_accounted by blast

theorem state_writes_follow_success_witness:
  "rows_of (file_states (out_db (sync_folders no_faults fresh_world one_config 1 True 0 5))) 1 [''x.txt'']
     \<noteq> rows_of (file_states one_config) 1 [''x.txt'']
   \<and> justified None (out_effects (sync_folders no_faults fresh_world one_config 1 True 0 5))
   \<and> (StateUpsert [''x.txt''] \<in> set (out_effects (sync_folders no_faults fresh_world one_config 1 True 0 5))
      \<or> StateDelete [''x.txt''] \<in> set (out_effects (sync_folders no_faults fresh_world one_config 1 True 0 5)))"
proof -
  have "rows_of (file_states (out_db (sync_folders no_faults fresh_world one_config 1 True 0 5))) 1 [''x.txt'']
     \<noteq> rows_of (file_states one_config) 1 [''x.txt'']"
    by code_simp
  with state_writes_follow_success[of no_faults fresh_world one_config 1 True 0 5 "[''x.txt'']"]
  show ?thesis by blast
qed

text \<open>
  C4 as stated fails outside the engine: after a run of \<open>SyncService.sync_config\<close> in
  which the copy of \<open>x.txt\<close> is refused, \<open>update_file_states\<close> has written the row of
  \<open>x.txt\<close> with status \<open>synced\<close>, while the destination is still empty.
\<close>

theorem state_writes_counterexample:
  "snd (snd (snd (sync_config no_remote x_fails fresh_world one_config 1 5)))
     = [Put [''x.txt''] False, StateUpsert [''x.txt'']]
   \<and> \<not> justified None
        (snd (snd (snd (sync_config no_remote x_fails fresh_world one_config 1 5))))
   \<and> map (\<lambda>r. (file_path r, sync_status r))
        (file_states (fst (snd (snd (sync_config no_remote x_fails fresh_world one_config 1 5)))))
     = [([''x.txt''], ''synced'')]
   \<and> target (fst (snd (sync_config no_remote x_fails fresh_world one_config 1 5))) = Some []"
  by code_simp

section \<open>Theorems: what a run does to the destination\<close>

lemma bak_neq: "bak q \<noteq> q"
proof (cases "q = []")
  case True
  then show ?thesis by (simp add: bak_def)
next
  case False
  have "last (bak q) = last q @ ''.bak''" by (simp add: bak_def)
  then have "last (bak q) \<noteq> last q" by simp
  then show ?thesis by metis
qed

lemma find_rows_of:
  "find (\<lambda>state. file_path state = p) (get_file_states rows cid) =
     (case rows_of rows cid p of [] \<Rightarrow> None | r # rs \<Rightarrow> Some r)"
  by (induction rows) (auto simp: get_file_states_def rows_of_def)

lemma need_update_alt:
  "need_update src e cid p =
     (case map_of src p of
        None \<Rightarrow> True
      | Some sf \<Rightarrow>
          (case map_of (dst e) p of
             None \<Rightarrow> True
           | Some tf \<Rightarrow>
               st_size sf \<noteq> st_size tf \<or> st_mtime sf > st_mtime tf \<or> digest sf \<noteq> digest tf
               \<or> (case rows_of (file_states (edb e)) cid p of
                     [] \<Rightarrow> False
                   | r # rs \<Rightarrow> file_hash r \<noteq> Some (digest sf))))"
  by (auto simp: need_update_def find_rows_of split: option.splits list.splits)

lemma need_update_cong:
  assumes "map_of (dst e') p = map_of (dst e) p"
    and "rows_of (file_states (edb e')) cid p = rows_of (file_states (edb e)) cid p"
  shows "need_update src e' cid p = need_update src e cid p"
  unfolding need_update_alt using assms by (simp split: option.splits list.splits)


lemma copy_file_dst_other:
  assumes "p \<noteq> q" and "p \<noteq> bak q"
  shows "map_of (dst (fst (copy_file fl src e q))) p = map_of (dst e) p"
  using assms
  by (auto simp: copy_file_def Let_def update_conv' delete_conv' split: option.splits)

lemma copy_file_ok:
  assumes "snd (copy_file fl src e q)"
  shows "map_of src q \<noteq> None" and "\<not> copy_fails fl q"
    and "map_of (dst (fst (copy_file fl src e q))) q = map_of src q"
  using assms bak_neq[of q]
  by (auto simp: copy_file_def Let_def update_conv' delete_conv' split: option.splits if_splits)


lemma sync_source_file_cases [consumes 1, case_names mkdir skip failed copied]:
  assumes e'_def: "e' = sync_source_file fl src tf cid sid e q"
  obtains
    (mkdir) "mkdir_fails fl q" "e' = count_error e"
  | (skip) "\<not> mkdir_fails fl q" "q \<in> set tf" "\<not> need_update src e cid q"
      "e' = e\<lparr>stats := (stats e)\<lparr>skipped := Suc (skipped (stats e))\<rparr>\<rparr>"
  | (failed) "\<not> mkdir_fails fl q" "\<not> snd (copy_file fl src e q)"
      "e' = fst (copy_file fl src e q)"
  | (copied) f where "\<not> mkdir_fails fl q" "snd (copy_file fl src e q)"
      "map_of src q = Some f"
      "dst e' = dst (fst (copy_file fl src e q))"
      "file_states (edb e') = update_file_state (file_states (edb e)) cid q
                                (Some (digest f)) (Some (st_mtime f)) ''synced''"
      "errors (stats e') = errors (stats e)"
proof (cases "mkdir_fails fl q")
  case True
  then show ?thesis using mkdir by (simp add: e'_def sync_source_file_def)
next
  case nm: False
  show ?thesis
  proof (cases "q \<in> set tf \<and> \<not> need_update src e cid q")
    case True
    then show ?thesis using skip nm by (simp add: e'_def sync_source_file_def)
  next
    case attempt: False
    show ?thesis
    proof (cases "snd (copy_file fl src e q)")
      case False
      then have "e' = fst (copy_file fl src e q)"
        using nm attempt by (auto simp: e'_def sync_source_file_def case_prod_beta)
      then show ?thesis using failed nm False by simp
    next
      case True
      from copy_file_ok(1)[OF True] obtain f where f: "map_of src q = Some f" by auto
      have "dst e' = dst (fst (copy_file fl src e q))"
        using nm attempt True
        by (auto simp: e'_def sync_source_file_def case_prod_beta Let_def)
      moreover have "file_states (edb e') = update_file_state (file_states (edb e)) cid q
                                (Some (digest f)) (Some (st_mtime f)) ''synced''"
        using nm attempt True f
        by (auto simp: e'_def sync_source_file_def case_prod_beta Let_def
              update_file_state_in_db_def)
      moreover have "errors (stats e') = errors (stats e)"
        using nm attempt True
        by (auto simp: e'_def sync_source_file_def case_prod_beta Let_def copy_file_errors)
      ultimately show ?thesis using copied nm True f by blast
    qed
  qed
qed


lemma step_dst_other:
  assumes "p \<noteq> q" and "p \<noteq> bak q"
  shows "map_of (dst (sync_source_file fl src tf cid sid e q)) p = map_of (dst e) p"
  using refl[of "sync_source_file fl src tf cid sid e q"]
  by (cases rule: sync_source_file_cases) (simp_all add: copy_file_dst_other[OF assms])

lemma step_rows_other:
  assumes "p \<noteq> q"
  shows "rows_of (file_states (edb (sync_source_file fl src tf cid sid e q))) cid p
           = rows_of (file_states (edb e)) cid p"
  using refl[of "sync_source_file fl src tf cid sid e q"]
  by (cases rule: sync_source_file_cases) (simp_all add: rows_of_update_other[OF assms])



lemma copy_pass_Cons:
  "copy_pass fl src tf cid sid e (q # ps) =
     copy_pass fl src tf cid sid (sync_source_file fl src tf cid sid e q) ps"
  by (simp add: copy_pass_def)

lemma copy_pass_Nil: "copy_pass fl src tf cid sid e [] = e"
  by (simp add: copy_pass_def)






lemma copy_pass_dst_other:
  assumes "p \<notin> set ps" and "p \<notin> bak ` set ps"
  shows "map_of (dst (copy_pass fl src tf cid sid e ps)) p = map_of (dst e) p"
  using assms
proof (induction ps arbitrary: e)
  case Nil
  then show ?case by (simp add: copy_pass_Nil)
next
  case (Cons q ps)
  then show ?case unfolding copy_pass_Cons by (simp add: step_dst_other)
qed

lemma copy_pass_rows_other:
  assumes "p \<notin> set ps"
  shows "rows_of (file_states (edb (copy_pass fl src tf cid sid e ps))) cid p
           = rows_of (file_states (edb e)) cid p"
  using assms
proof (induction ps arbitrary: e)
  case Nil
  then show ?case by (simp add: copy_pass_Nil)
next
  case (Cons q ps)
  then show ?case unfolding copy_pass_Cons by (simp add: step_rows_other)
qed

lemma need_update_stats [simp]:
  "need_update src (e\<lparr>stats := st\<rparr>) cid p = need_update src e cid p"
  by (rule need_update_cong) simp_all


lemma delete_target_file_cases [consumes 1, case_names keep failed removed]:
  assumes e'_def: "e' = delete_target_file fl sf sy cid sid e q"
  obtains
    (keep) "e' = e"
  | (failed) "q \<notin> set sf" "q \<in> set sy" "map_of (dst e) q \<noteq> None" "remove_fails fl q"
      "e' = (count_error e)\<lparr>effects := effects e @ [Remove q False]\<rparr>"
  | (removed) "q \<notin> set sf" "q \<in> set sy" "map_of (dst e) q \<noteq> None" "\<not> remove_fails fl q"
      "dst e' = AList.delete q (dst e)"
      "file_states (edb e') = delete_file_state (file_states (edb e)) cid q"
      "stats e' = (stats e)\<lparr>deleted := Suc (deleted (stats e))\<rparr>"
proof (cases "q \<notin> set sf \<and> q \<in> set sy \<and> map_of (dst e) q \<noteq> None")
  case False
  then have "e' = e"
    by (auto simp: e'_def delete_target_file_def delete_file_def split: option.splits)
  then show ?thesis by (rule keep)
next
  case True
  show ?thesis
  proof (cases "remove_fails fl q")
    case rf: True
    with True have "e' = (count_error e)\<lparr>effects := effects e @ [Remove q False]\<rparr>"
      by (auto simp: e'_def delete_target_file_def delete_file_def)
    with True rf show ?thesis using failed by blast
  next
    case rf: False
    with True have "dst e' = AList.delete q (dst e)"
      "file_states (edb e') = delete_file_state (file_states (edb e)) cid q"
      "stats e' = (stats e)\<lparr>deleted := Suc (deleted (stats e))\<rparr>"
      by (auto simp: e'_def delete_target_file_def delete_file_def Let_def)
    with True rf show ?thesis using removed by blast
  qed
qed


lemma del_counts:
  "copied (stats (delete_target_file fl sf sy cid sid e q)) = copied (stats e)"
  "updated (stats (delete_target_file fl sf sy cid sid e q)) = updated (stats e)"
  "skipped (stats (delete_target_file fl sf sy cid sid e q)) = skipped (stats e)"
  using refl[of "delete_target_file fl sf sy cid sid e q"]
  by (cases rule: delete_target_file_cases; simp)+

lemma del_dst:
  "map_of (dst (delete_target_file fl sf sy cid sid e q)) p = map_of (dst e) p
   \<or> (map_of (dst (delete_target_file fl sf sy cid sid e q)) p = None
        \<and> p = q \<and> q \<notin> set sf \<and> q \<in> set sy)"
  using refl[of "delete_target_file fl sf sy cid sid e q"]
  by (cases rule: delete_target_file_cases) (auto simp: delete_conv')




lemma del_fold_counts:
  "copied (stats (foldl (delete_target_file fl sf sy cid sid) e tf)) = copied (stats e)
   \<and> updated (stats (foldl (delete_target_file fl sf sy cid sid) e tf)) = updated (stats e)
   \<and> skipped (stats (foldl (delete_target_file fl sf sy cid sid) e tf)) = skipped (stats e)"
  by (induction tf arbitrary: e) (simp_all add: del_counts)

lemma del_fold_dst:
  "map_of (dst (foldl (delete_target_file fl sf sy cid sid) e tf)) p = map_of (dst e) p
   \<or> (map_of (dst (foldl (delete_target_file fl sf sy cid sid) e tf)) p = None
        \<and> p \<notin> set sf \<and> p \<in> set sy)"
proof (induction tf arbitrary: e)
  case Nil
  then show ?case by simp
next
  case (Cons q tf)
  show ?case
    using Cons[of "delete_target_file fl sf sy cid sid e q"] del_dst[of fl sf sy cid sid e q p]
    by auto
qed




section \<open>Theorems: running twice\<close>

lemma synced_files_iff:
  "q \<in> set (map file_path (get_file_states rows cid)) \<longleftrightarrow> rows_of rows cid q \<noteq> []"
  by (induction rows) (auto simp: get_file_states_def rows_of_def)





lemma sync_folders_normal:
  assumes "source w = Some src" and "\<not> (target w = None \<and> target_mkdir_fails fl)"
  shows "sync_folders fl w d cid dm hid now =
     (let d1 = (if hid \<noteq> 0 then d
                else fst (add_sync_history d cid ''in_progress'' LocalStart None None now));
          sid = (if hid \<noteq> 0 then hid else Suc (last_history_id d));
          e2 = run_passes fl src (case target w of None \<Rightarrow> [] | Some t \<Rightarrow> t) d1 cid dm sid
      in \<lparr>out_stats = stats e2, out_target = Some (dst e2),
          out_db = finish_history (edb e2) sid (stats e2) now,
          out_effects = effects e2\<rparr>)"
  using assms
  by (auto simp: sync_folders_def Let_def case_prod_beta add_sync_history_rows(3))





section \<open>Theorems: safe delete\<close>

text \<open>
  What the delete pass and the copy loop leave alone: a destination entry without a row,
  absent from the source and not under the backup name of a source file, is the same
  after the run.
\<close>

lemma untracked_untouched:
  assumes src: "source w = Some src" and tgt: "target w = Some tgt"
    and untracked: "rows_of (file_states d) cid q = []"
    and notsrc: "q \<notin> set (get_files_list (Some src))"
    and notbak: "q \<notin> bak ` set (get_files_list (Some src))"
  shows "\<exists>t. out_target (sync_folders fl w d cid dm hid now) = Some t \<and> map_of t q = map_of tgt q"
proof -
  let ?S = "get_files_list (Some src)"
  let ?T = "get_files_list (Some tgt)"
  let ?d1 = "if hid \<noteq> 0 then d
             else fst (add_sync_history d cid ''in_progress'' LocalStart None None now)"
  let ?sid = "if hid \<noteq> 0 then hid else Suc (last_history_id d)"
  let ?e0 = "\<lparr>dst = tgt, edb = ?d1, stats = no_stats, effects = []\<rparr>"
  let ?e1 = "copy_pass fl src ?T cid ?sid ?e0 ?S"
  let ?sy = "map file_path (get_file_states (file_states (edb ?e1)) cid)"
  let ?e2 = "run_passes fl src tgt ?d1 cid dm ?sid"
  have normal: "\<not> (target w = None \<and> target_mkdir_fails fl)" using tgt by simp
  have out: "out_target (sync_folders fl w d cid dm hid now) = Some (dst ?e2)"
    unfolding sync_folders_normal[OF src normal] using tgt by (simp add: Let_def)
  have d1: "file_states ?d1 = file_states d" by (simp add: add_sync_history_rows)
  have m1: "map_of (dst ?e1) q = map_of tgt q"
    using copy_pass_dst_other[OF notsrc notbak, of fl src ?T cid ?sid ?e0] by simp
  have "rows_of (file_states (edb ?e1)) cid q = rows_of (file_states (edb ?e0)) cid q"
    by (rule copy_pass_rows_other[OF notsrc])
  then have r1: "rows_of (file_states (edb ?e1)) cid q = []"
    unfolding engine.select_convs d1 using untracked by simp
  then have nsy: "q \<notin> set ?sy" by (simp add: synced_files_iff del: set_map)
  have "map_of (dst ?e2) q = map_of (dst ?e1) q"
  proof (cases dm)
    case False
    then show ?thesis by (simp add: run_passes_def Let_def)
  next
    case True
    then have "?e2 = foldl (delete_target_file fl ?S ?sy cid ?sid) ?e1 ?T"
      by (simp add: run_passes_def Let_def delete_pass_def)
    then show ?thesis
      using del_fold_dst[of fl ?S ?sy cid ?sid ?e1 ?T q] nsy by auto
  qed
  with m1 out show ?thesis by simp
qed

text \<open>
  C1 at a failing input. The destination holds \<open>x.txt.bak\<close>, a file without any row in
  \<open>file_states\<close>, beside an older \<open>x.txt\<close>; delete mode is on. The run updates
  \<open>x.txt\<close>, counts no deletion and no error, and the destination no longer holds
  \<open>x.txt.bak\<close>: \<open>_copy_file\<close> wrote its backup over it and removed the backup.
\<close>

theorem backup_removes_untracked_file:
  "file_states one_config = []
   \<and> target bak_world = Some [([''x.txt''], file_a), ([''x.txt.bak''], file_c)]
   \<and> out_target (sync_folders no_faults bak_world one_config 1 True 0 5)
        = Some [([''x.txt''], file_b)]
   \<and> out_stats (sync_folders no_faults bak_world one_config 1 True 0 5)
        = \<lparr>copied = 0, updated = 1, deleted = 0, skipped = 0, errors = 0\<rparr>
   \<and> out_effects (sync_folders no_faults bak_world one_config 1 True 0 5)
        = [Put [''x.txt''] True, StateUpsert [''x.txt'']]"
  by code_simp

end
